theory Spec2Isabelle
  imports Complex_Main "HOL-Library.Word"
begin

section \<open>Job records\<close>

text \<open>
  Modelled from the spec: the \<open>job\<close> package (the \<open>Job\<close> struct and its \<open>State\<close>
  type) is imported by the notifier but its declarations are not among the sources.
  The four states and the fields are those of the data model; \<open>State_string\<close> is the
  text a state prints as, and \<open>CallbackCount\<close>, the data model's non-negative integer, is
  an integer without a bound.
\<close>

datatype State = StatePending | StateInProgress | StateSuccess | StateFailed

fun State_string :: "State \<Rightarrow> string" where
  "State_string StatePending = ''Pending''"
| "State_string StateInProgress = ''InProgress''"
| "State_string StateSuccess = ''Success''"
| "State_string StateFailed = ''Failed''"

record Job =
  ID :: string
  AggrID :: string
  URL :: string
  CallbackURL :: string
  Extra :: string
  DownloadTimeout :: "int option"
  DownloadState :: State
  DownloadMeta :: string
  CallbackState :: State
  CallbackMeta :: string
  CallbackCount :: int

section \<open>Errors, payloads and the effects of a run\<close>

text \<open>
  Go errors are values. The two sentinels of the storage package are compared by
  identity in \<open>Start\<close>; every other error carries its message. \<open>Error\<close> is the
  \<open>Error()\<close> method; the notifier never reads the text of a sentinel.
\<close>

datatype error = ErrEmptyQueue | ErrRetryLater | Err string

fun Error :: "error \<Rightarrow> string" where
  "Error ErrEmptyQueue = ''Queue is empty''"
| "Error ErrRetryLater = ''Retry later''"
| "Error (Err m) = m"

text \<open>\<open>CallbackInfo\<close> holds the info posted back to the callback URL.\<close>

record CallbackInfo =
  cb_Success :: bool
  cb_Error :: string
  cb_Extra :: string
  cb_DownloadURL :: string

text \<open>What the notifier reads of an \<open>http.Response\<close>.\<close>

record Response =
  StatusCode :: int
  Status :: string

text \<open>The lines the notifier writes to its logger, with their arguments.\<close>

datatype logline =
    LogCallbackFailed string string string
  | LogErr error
  | LogCouldNotGetJob error
  | LogCouldNotQueue error
  | LogQueuedRogue "64 word"
  | LogNotifyError error

text \<open>
  Every call that leaves the process is recorded, oldest first: the calls on the store,
  the HTTP POSTs, the log lines and the one-second sleeps of the dispatcher.
\<close>

datatype event =
    EvSaveJob Job
  | EvGetJob string
  | EvRemoveJob string
  | EvQueuePendingCallback Job
  | EvPopCallback
  | EvScan "64 word" string int
  | EvHGet string string
  | EvPost string string CallbackInfo
  | EvLog logline
  | EvSleep

section \<open>The store and the network\<close>

text \<open>
  Modelled from the spec: the \<open>storage\<close> package is not among the sources. The store
  is a table of job records keyed by job ID (kept in Redis under the key
  \<open>JobKeyPrefix\<close> followed by the ID) and a pending-callback queue of job IDs. A call
  that the store fails changes nothing in it.
  \<open>faults\<close> scripts the outcome of the coming store calls (one entry per call, an empty
  script meaning a healthy store), \<open>scan\<close> is the answer of the key scan at each cursor,
  and \<open>responses\<close> scripts the outcome of the coming HTTP POSTs (a transport error or a
  response; with nothing scripted the request times out).
\<close>

record World =
  JobKeyPrefix :: string
  jobs :: "string \<rightharpoonup> Job"
  callbackQueue :: "string list"
  scan :: "64 word \<Rightarrow> error + (string list \<times> 64 word)"
  faults :: "error option list"
  responses :: "(error + Response) list"
  trace :: "event list"

definition emit :: "event \<Rightarrow> World \<Rightarrow> World" where
  "emit ev w = w\<lparr>trace := trace w @ [ev]\<rparr>"

definition store_call :: "event \<Rightarrow> World \<Rightarrow> error option \<times> World" where
  "store_call ev w =
     (case faults w of
        [] \<Rightarrow> (None, emit ev w)
      | f # fs \<Rightarrow> (f, emit ev (w\<lparr>faults := fs\<rparr>)))"

definition SaveJob :: "Job \<Rightarrow> World \<Rightarrow> error option \<times> World" where
  "SaveJob j w =
     (case store_call (EvSaveJob j) w of
        (Some e, w') \<Rightarrow> (Some e, w')
      | (None, w') \<Rightarrow> (None, w'\<lparr>jobs := (jobs w')(ID j \<mapsto> j)\<rparr>))"

definition GetJob :: "string \<Rightarrow> World \<Rightarrow> (error + Job) \<times> World" where
  "GetJob i w =
     (case store_call (EvGetJob i) w of
        (Some e, w') \<Rightarrow> (Inl e, w')
      | (None, w') \<Rightarrow>
          (case jobs w' i of
             None \<Rightarrow> (Inl (Err ''Not Found''), w')
           | Some j \<Rightarrow> (Inr j, w')))"

definition RemoveJob :: "string \<Rightarrow> World \<Rightarrow> error option \<times> World" where
  "RemoveJob i w =
     (case store_call (EvRemoveJob i) w of
        (Some e, w') \<Rightarrow> (Some e, w')
      | (None, w') \<Rightarrow> (None, w'\<lparr>jobs := (jobs w')(i := None)\<rparr>))"

text \<open>
  Modelled from the spec: \<open>QueuePendingCallback\<close> is the re-enqueue of the callback
  state machine of section 4.4, \<open>Pending \<rightarrow> InProgress \<rightarrow> {removed | Pending-via-requeue
  (retry) | Failed}\<close>, after which the state is "set back to \<open>InProgress\<close> on the next
  delivery attempt". The job, passed by pointer, is put back to \<open>StatePending\<close>; the
  store keeps it so and pushes its ID on the queue.
\<close>

definition QueuePendingCallback :: "Job \<Rightarrow> World \<Rightarrow> error option \<times> Job \<times> World" where
  "QueuePendingCallback j w =
     (let j' = j\<lparr>CallbackState := StatePending\<rparr> in
      case store_call (EvQueuePendingCallback j) w of
        (Some e, w') \<Rightarrow> (Some e, j', w')
      | (None, w') \<Rightarrow>
          (None, j', w'\<lparr>jobs := (jobs w')(ID j \<mapsto> j'),
                        callbackQueue := callbackQueue w' @ [ID j]\<rparr>))"

definition PopCallback :: "World \<Rightarrow> (error + Job) \<times> World" where
  "PopCallback w =
     (case store_call EvPopCallback w of
        (Some e, w') \<Rightarrow> (Inl e, w')
      | (None, w') \<Rightarrow>
          (case callbackQueue w' of
             [] \<Rightarrow> (Inl ErrEmptyQueue, w')
           | i # q \<Rightarrow>
               (case jobs w' i of
                  None \<Rightarrow> (Inl (Err ''Not Found''), w'\<lparr>callbackQueue := q\<rparr>)
                | Some j \<Rightarrow> (Inr j, w'\<lparr>callbackQueue := q\<rparr>))))"

text \<open>\<open>Redis.Scan(cursor, match, count).Result()\<close>: one page of keys and the next cursor.\<close>

definition Redis_Scan ::
  "64 word \<Rightarrow> string \<Rightarrow> int \<Rightarrow> World \<Rightarrow> (error + (string list \<times> 64 word)) \<times> World" where
  "Redis_Scan cursor pat cnt w = (scan w cursor, emit (EvScan cursor pat cnt) w)"

definition strings_HasPrefix :: "string \<Rightarrow> string \<Rightarrow> bool" where
  "strings_HasPrefix s p = (take (length p) s = p)"

definition strings_TrimPrefix :: "string \<Rightarrow> string \<Rightarrow> string" where
  "strings_TrimPrefix s p = (if strings_HasPrefix s p then drop (length p) s else s)"

text \<open>
  \<open>Redis.HGet(key, "CallbackState")\<close>: the stored callback state of the record kept
  under \<open>key\<close>; an error when the call fails or no record lives there.
\<close>

definition Redis_HGet_CallbackState :: "string \<Rightarrow> World \<Rightarrow> (error + State) \<times> World" where
  "Redis_HGet_CallbackState k w =
     (case store_call (EvHGet k ''CallbackState'') w of
        (Some e, w') \<Rightarrow> (Inl e, w')
      | (None, w') \<Rightarrow>
          (if strings_HasPrefix k (JobKeyPrefix w')
           then (case jobs w' (drop (length (JobKeyPrefix w')) k) of
                   None \<Rightarrow> (Inl (Err ''redis: nil''), w')
                 | Some j \<Rightarrow> (Inr (CallbackState j), w'))
           else (Inl (Err ''redis: nil''), w')))"

text \<open>\<open>client.Post(url, contentType, body)\<close> with the 3-second client.\<close>

definition client_Post ::
  "string \<Rightarrow> string \<Rightarrow> CallbackInfo \<Rightarrow> World \<Rightarrow> (error + Response) \<times> World" where
  "client_Post u ctype body w =
     (case responses w of
        [] \<Rightarrow> (Inl (Err ''Client.Timeout exceeded''), emit (EvPost u ctype body) w)
      | r # rs \<Rightarrow> (r, emit (EvPost u ctype body) (w\<lparr>responses := rs\<rparr>)))"

definition Log_Print :: "logline \<Rightarrow> World \<Rightarrow> World" where
  "Log_Print l w = emit (EvLog l) w"

section \<open>The standard library\<close>

text \<open>
  The notifier calls \<open>url.ParseRequestURI\<close>, \<open>path.Join\<close> and \<open>URL.String\<close> of the Go
  standard library, which is not part of the repository. They are given here as the Go
  sources of the packages \<open>path\<close> and \<open>net/url\<close> define them, byte by byte on strings;
  only the texts of the errors are shortened (the quoted input is left out of them).
\<close>

subsection \<open>Package strings\<close>

fun strings_Join :: "string list \<Rightarrow> string \<Rightarrow> string" where
  "strings_Join [] sep = []"
| "strings_Join [x] sep = x"
| "strings_Join (x # y # zs) sep = x @ sep @ strings_Join (y # zs) sep"

definition strings_HasSuffix :: "string \<Rightarrow> string \<Rightarrow> bool" where
  "strings_HasSuffix s p = (length p \<le> length s \<and> drop (length s - length p) s = p)"

fun strings_Index :: "string \<Rightarrow> string \<Rightarrow> nat option" where
  "strings_Index [] sub = (if sub = [] then Some 0 else None)"
| "strings_Index (c # s) sub =
     (if strings_HasPrefix (c # s) sub then Some 0
      else map_option Suc (strings_Index s sub))"

definition strings_LastIndexByte :: "string \<Rightarrow> char \<Rightarrow> nat option" where
  "strings_LastIndexByte s c =
     (if c \<in> set s then Some (length s - Suc (length (takeWhile (\<lambda>x. x \<noteq> c) (rev s))))
      else None)"

definition strings_Cut :: "string \<Rightarrow> string \<Rightarrow> string \<times> string \<times> bool" where
  "strings_Cut s sep =
     (case strings_Index s sep of
        Some i \<Rightarrow> (take i s, drop (i + length sep) s, True)
      | None \<Rightarrow> (s, [], False))"

definition strings_ToLower :: "string \<Rightarrow> string" where
  "strings_ToLower s =
     map (\<lambda>c. if 65 \<le> (of_char c :: nat) \<and> (of_char c :: nat) \<le> 90
               then char_of ((of_char c :: nat) + 32) else c) s"

subsection \<open>Package path\<close>

text \<open>The inner loop of the \<open>..\<close> case: \<open>w\<close> moves back to the last slash, or to \<open>dotdot\<close>.\<close>

fun backtrack :: "string \<Rightarrow> nat \<Rightarrow> nat \<Rightarrow> nat" where
  "backtrack out dotdot 0 = 0"
| "backtrack out dotdot (Suc w) =
     (if Suc w > dotdot \<and> out ! Suc w \<noteq> CHR ''/'' then backtrack out dotdot w else Suc w)"

function Clean_loop :: "bool \<Rightarrow> string \<Rightarrow> string \<Rightarrow> nat \<Rightarrow> string" where
  "Clean_loop rooted [] out dotdot = out"
| "Clean_loop rooted (c # p) out dotdot =
     (if c = CHR ''/'' then Clean_loop rooted p out dotdot
      else if c = CHR ''.'' \<and> (p = [] \<or> hd p = CHR ''/'') then Clean_loop rooted p out dotdot
      else if c = CHR ''.'' \<and> p \<noteq> [] \<and> hd p = CHR ''.''
              \<and> (tl p = [] \<or> hd (tl p) = CHR ''/'')
      then (if length out > dotdot
            then Clean_loop rooted (tl p)
                   (take (backtrack out dotdot (length out - 1)) out) dotdot
            else if \<not> rooted
            then Clean_loop rooted (tl p)
                   ((if out \<noteq> [] then out @ ''/'' else out) @ ''..'')
                   (length ((if out \<noteq> [] then out @ ''/'' else out) @ ''..''))
            else Clean_loop rooted (tl p) out dotdot)
      else Clean_loop rooted (dropWhile (\<lambda>x. x \<noteq> CHR ''/'') p)
             ((if rooted \<and> length out \<noteq> 1 \<or> \<not> rooted \<and> length out \<noteq> 0
               then out @ ''/'' else out) @ c # takeWhile (\<lambda>x. x \<noteq> CHR ''/'') p)
             dotdot)"
  by pat_completeness auto
termination
  by (relation "measure (\<lambda>(rooted, p, out, dotdot). length p)")
     (auto simp: length_dropWhile_le le_imp_less_Suc)

definition Clean :: "string \<Rightarrow> string" where
  "Clean p =
     (if p = [] then ''.''
      else let rooted = (hd p = CHR ''/'');
               out = (if rooted then Clean_loop rooted (tl p) ''/'' 1
                      else Clean_loop rooted p [] 0)
           in if out = [] then ''.'' else out)"

definition Join :: "string list \<Rightarrow> string" where
  "Join elem =
     (let es = dropWhile (\<lambda>e. e = []) elem
      in if es = [] then [] else Clean (strings_Join es ''/''))"

subsection \<open>Package net/url\<close>

record Userinfo =
  username :: string
  password :: string
  passwordSet :: bool

record url_URL =
  Scheme :: string
  Opaque :: string
  User :: "Userinfo option"
  Host :: string
  Path :: string
  RawPath :: string
  OmitHost :: bool
  ForceQuery :: bool
  RawQuery :: string
  Fragment :: string
  RawFragment :: string

definition new_URL :: url_URL where
  "new_URL = \<lparr>Scheme = [], Opaque = [], User = None, Host = [], Path = [], RawPath = [],
              OmitHost = False, ForceQuery = False, RawQuery = [], Fragment = [],
              RawFragment = []\<rparr>"

datatype encoding = encodePath | encodePathSegment | encodeHost | encodeZone
  | encodeUserPassword | encodeQueryComponent | encodeFragment

definition byte :: "char \<Rightarrow> nat" where
  "byte c = of_char c"

definition isalnum :: "char \<Rightarrow> bool" where
  "isalnum c = (97 \<le> byte c \<and> byte c \<le> 122 \<or> 65 \<le> byte c \<and> byte c \<le> 90
                \<or> 48 \<le> byte c \<and> byte c \<le> 57)"

definition ishex :: "char \<Rightarrow> bool" where
  "ishex c = (48 \<le> byte c \<and> byte c \<le> 57 \<or> 97 \<le> byte c \<and> byte c \<le> 102
              \<or> 65 \<le> byte c \<and> byte c \<le> 70)"

definition unhex :: "char \<Rightarrow> nat" where
  "unhex c =
     (if 48 \<le> byte c \<and> byte c \<le> 57 then byte c - 48
      else if 97 \<le> byte c \<and> byte c \<le> 102 then byte c - 97 + 10
      else if 65 \<le> byte c \<and> byte c \<le> 70 then byte c - 65 + 10
      else 0)"

definition shouldEscape :: "char \<Rightarrow> encoding \<Rightarrow> bool" where
  "shouldEscape c mode =
     (if isalnum c then False
      else if (mode = encodeHost \<or> mode = encodeZone)
              \<and> c \<in> set (''!$&()*+,;=:[]<>'' @ [CHR 0x27, CHR 0x22]) then False
      else if c \<in> set ''-_.~'' then False
      else if c \<in> set ''$&+,/:;=?@'' then
        (case mode of
           encodePath \<Rightarrow> c = CHR ''?''
         | encodePathSegment \<Rightarrow> c \<in> set ''/;,?''
         | encodeUserPassword \<Rightarrow> c \<in> set ''@/?:''
         | encodeQueryComponent \<Rightarrow> True
         | encodeFragment \<Rightarrow> False
         | _ \<Rightarrow> True)
      else if mode = encodeFragment \<and> c \<in> set ''!()*'' then False
      else True)"

definition upperhex :: "nat \<Rightarrow> char" where
  "upperhex k = ''0123456789ABCDEF'' ! k"

fun escape :: "string \<Rightarrow> encoding \<Rightarrow> string" where
  "escape [] mode = []"
| "escape (c # s) mode =
     (if c = CHR '' '' \<and> mode = encodeQueryComponent then CHR ''+'' # escape s mode
      else if shouldEscape c mode
      then CHR ''%'' # upperhex (byte c div 16) # upperhex (byte c mod 16) # escape s mode
      else c # escape s mode)"

fun unescape :: "string \<Rightarrow> encoding \<Rightarrow> error + string" where
  "unescape [] mode = Inr []"
| "unescape (c # s) mode =
     (if c = CHR ''%'' then
        (case s of
           h1 # h2 # r \<Rightarrow>
             if \<not> ishex h1 \<or> \<not> ishex h2 then Inl (Err ''invalid URL escape'')
             else if mode = encodeHost \<and> unhex h1 < 8 \<and> [c, h1, h2] \<noteq> ''%25''
             then Inl (Err ''invalid URL escape'')
             else if mode = encodeZone \<and> [c, h1, h2] \<noteq> ''%25''
                     \<and> char_of (unhex h1 * 16 + unhex h2) \<noteq> CHR '' ''
                     \<and> shouldEscape (char_of (unhex h1 * 16 + unhex h2)) encodeHost
             then Inl (Err ''invalid URL escape'')
             else (case unescape r mode of
                     Inl e \<Rightarrow> Inl e
                   | Inr t \<Rightarrow> Inr (char_of (unhex h1 * 16 + unhex h2) # t))
         | _ \<Rightarrow> Inl (Err ''invalid URL escape''))
      else if c = CHR ''+'' then
        (case unescape s mode of
           Inl e \<Rightarrow> Inl e
         | Inr t \<Rightarrow> Inr ((if mode = encodeQueryComponent then CHR '' '' else CHR ''+'') # t))
      else if (mode = encodeHost \<or> mode = encodeZone) \<and> byte c < 128
              \<and> shouldEscape c encodeHost
      then Inl (Err ''invalid character in host name'')
      else (case unescape s mode of Inl e \<Rightarrow> Inl e | Inr t \<Rightarrow> Inr (c # t)))"

definition validEncoded :: "string \<Rightarrow> encoding \<Rightarrow> bool" where
  "validEncoded s mode =
     (\<forall>c \<in> set s. c \<in> set (''!$&()*+,;=:@[]%'' @ [CHR 0x27]) \<or> \<not> shouldEscape c mode)"

definition EscapedPath :: "url_URL \<Rightarrow> string" where
  "EscapedPath u =
     (if RawPath u \<noteq> [] \<and> validEncoded (RawPath u) encodePath
         \<and> unescape (RawPath u) encodePath = Inr (Path u)
      then RawPath u
      else if Path u = ''*'' then ''*''
      else escape (Path u) encodePath)"

definition EscapedFragment :: "url_URL \<Rightarrow> string" where
  "EscapedFragment u =
     (if RawFragment u \<noteq> [] \<and> validEncoded (RawFragment u) encodeFragment
         \<and> unescape (RawFragment u) encodeFragment = Inr (Fragment u)
      then RawFragment u
      else escape (Fragment u) encodeFragment)"

definition Userinfo_String :: "Userinfo \<Rightarrow> string" where
  "Userinfo_String ui =
     escape (username ui) encodeUserPassword
     @ (if passwordSet ui then '':'' @ escape (password ui) encodeUserPassword else [])"

definition String :: "url_URL \<Rightarrow> string" where
  "String u =
     (let buf0 = (if Scheme u \<noteq> [] then Scheme u @ '':'' else []);
          buf1 =
            (if Opaque u \<noteq> [] then buf0 @ Opaque u
             else
               (let buf2 =
                      (if Scheme u \<noteq> [] \<or> Host u \<noteq> [] \<or> User u \<noteq> None
                       then (if OmitHost u \<and> Host u = [] \<and> User u = None then buf0
                             else
                               (let b1 = (if Host u \<noteq> [] \<or> Path u \<noteq> [] \<or> User u \<noteq> None
                                          then buf0 @ ''//'' else buf0);
                                    b2 = (case User u of
                                            Some ui \<Rightarrow> b1 @ Userinfo_String ui @ ''@''
                                          | None \<Rightarrow> b1)
                                in if Host u \<noteq> [] then b2 @ escape (Host u) encodeHost
                                   else b2))
                       else buf0);
                    path = EscapedPath u;
                    buf3 = (if path \<noteq> [] \<and> hd path \<noteq> CHR ''/'' \<and> Host u \<noteq> []
                            then buf2 @ ''/'' else buf2);
                    buf4 = (if buf3 = [] \<and> CHR '':'' \<in> set (fst (strings_Cut path ''/''))
                            then buf3 @ ''./'' else buf3)
                in buf4 @ path));
          buf5 = (if ForceQuery u \<or> RawQuery u \<noteq> [] then buf1 @ ''?'' @ RawQuery u else buf1)
      in if Fragment u \<noteq> [] then buf5 @ ''#'' @ EscapedFragment u else buf5)"

definition stringContainsCTLByte :: "string \<Rightarrow> bool" where
  "stringContainsCTLByte s = (\<exists>b \<in> set s. byte b < 32 \<or> byte b = 127)"

fun getScheme_from :: "string \<Rightarrow> nat \<Rightarrow> string \<Rightarrow> error + (string \<times> string)" where
  "getScheme_from rawURL i [] = Inr ([], rawURL)"
| "getScheme_from rawURL i (c # cs) =
     (if 97 \<le> byte c \<and> byte c \<le> 122 \<or> 65 \<le> byte c \<and> byte c \<le> 90
      then getScheme_from rawURL (Suc i) cs
      else if 48 \<le> byte c \<and> byte c \<le> 57 \<or> c = CHR ''+'' \<or> c = CHR ''-'' \<or> c = CHR ''.''
      then (if i = 0 then Inr ([], rawURL) else getScheme_from rawURL (Suc i) cs)
      else if c = CHR '':''
      then (if i = 0 then Inl (Err ''missing protocol scheme'')
            else Inr (take i rawURL, drop (Suc i) rawURL))
      else Inr ([], rawURL))"

definition getScheme :: "string \<Rightarrow> error + (string \<times> string)" where
  "getScheme rawURL = getScheme_from rawURL 0 rawURL"

definition validOptionalPort :: "string \<Rightarrow> bool" where
  "validOptionalPort port =
     (port = [] \<or> hd port = CHR '':'' \<and> (\<forall>b \<in> set (tl port). 48 \<le> byte b \<and> byte b \<le> 57))"

definition validUserinfo :: "string \<Rightarrow> bool" where
  "validUserinfo s =
     (\<forall>r \<in> set s. isalnum r \<or> r \<in> set (''-._:~!$&()*+,;=%@'' @ [CHR 0x27]))"

definition parseHost :: "string \<Rightarrow> error + string" where
  "parseHost host =
     (if strings_HasPrefix host ''[''
      then (case strings_LastIndexByte host CHR '']'' of
              None \<Rightarrow> Inl (Err ''missing ] in host'')
            | Some i \<Rightarrow>
                if \<not> validOptionalPort (drop (Suc i) host)
                then Inl (Err ''invalid port after host'')
                else (case strings_Index (take i host) ''%25'' of
                        Some zone \<Rightarrow>
                          (case unescape (take zone host) encodeHost of
                             Inl e \<Rightarrow> Inl e
                           | Inr host1 \<Rightarrow>
                          (case unescape (drop zone (take i host)) encodeZone of
                             Inl e \<Rightarrow> Inl e
                           | Inr host2 \<Rightarrow>
                          (case unescape (drop i host) encodeHost of
                             Inl e \<Rightarrow> Inl e
                           | Inr host3 \<Rightarrow> Inr (host1 @ host2 @ host3))))
                      | None \<Rightarrow> unescape host encodeHost))
      else (case strings_LastIndexByte host CHR '':'' of
              Some i \<Rightarrow>
                if \<not> validOptionalPort (drop i host) then Inl (Err ''invalid port after host'')
                else unescape host encodeHost
            | None \<Rightarrow> unescape host encodeHost))"

definition parseAuthority :: "string \<Rightarrow> error + (Userinfo option \<times> string)" where
  "parseAuthority authority =
     (case strings_LastIndexByte authority CHR ''@'' of
        None \<Rightarrow>
          (case parseHost authority of Inl e \<Rightarrow> Inl e | Inr host \<Rightarrow> Inr (None, host))
      | Some i \<Rightarrow>
          (case parseHost (drop (Suc i) authority) of
             Inl e \<Rightarrow> Inl e
           | Inr host \<Rightarrow>
               (let userinfo = take i authority in
                if \<not> validUserinfo userinfo then Inl (Err ''net/url: invalid userinfo'')
                else if CHR '':'' \<notin> set userinfo then
                  (case unescape userinfo encodeUserPassword of
                     Inl e \<Rightarrow> Inl e
                   | Inr un \<Rightarrow>
                       Inr (Some \<lparr>username = un, password = [], passwordSet = False\<rparr>, host))
                else
                  (case strings_Cut userinfo '':'' of
                     (un0, pw0, found) \<Rightarrow>
                       (case unescape un0 encodeUserPassword of
                          Inl e \<Rightarrow> Inl e
                        | Inr un \<Rightarrow>
                            (case unescape pw0 encodeUserPassword of
                               Inl e \<Rightarrow> Inl e
                             | Inr pw \<Rightarrow>
                                 Inr (Some \<lparr>username = un, password = pw,
                                             passwordSet = True\<rparr>, host)))))))"

definition setPath :: "url_URL \<Rightarrow> string \<Rightarrow> error + url_URL" where
  "setPath u p =
     (case unescape p encodePath of
        Inl e \<Rightarrow> Inl e
      | Inr path \<Rightarrow>
          Inr (u\<lparr>Path := path, RawPath := (if p = escape path encodePath then [] else p)\<rparr>))"

definition parse :: "string \<Rightarrow> bool \<Rightarrow> error + url_URL" where
  "parse rawURL viaRequest =
     (if stringContainsCTLByte rawURL
      then Inl (Err ''net/url: invalid control character in URL'')
      else if rawURL = [] \<and> viaRequest then Inl (Err ''empty url'')
      else if rawURL = ''*'' then Inr (new_URL\<lparr>Path := ''*''\<rparr>)
      else
        (case getScheme rawURL of
           Inl e \<Rightarrow> Inl e
         | Inr (scheme, rest0) \<Rightarrow>
             (let u1 = new_URL\<lparr>Scheme := strings_ToLower scheme\<rparr>;
                  force = (strings_HasSuffix rest0 ''?'' \<and> count_list rest0 CHR ''?'' = 1);
                  rest1 = (if force then butlast rest0 else fst (strings_Cut rest0 ''?''));
                  u2 = (if force then u1\<lparr>ForceQuery := True\<rparr>
                        else u1\<lparr>RawQuery := fst (snd (strings_Cut rest0 ''?''))\<rparr>)
              in if \<not> strings_HasPrefix rest1 ''/'' \<and> Scheme u2 \<noteq> []
                 then Inr (u2\<lparr>Opaque := rest1\<rparr>)
                 else if \<not> strings_HasPrefix rest1 ''/'' \<and> viaRequest
                 then Inl (Err ''invalid URI for request'')
                 else if \<not> strings_HasPrefix rest1 ''/''
                         \<and> CHR '':'' \<in> set (fst (strings_Cut rest1 ''/''))
                 then Inl (Err ''first path segment in URL cannot contain colon'')
                 else if (Scheme u2 \<noteq> [] \<or> \<not> viaRequest \<and> \<not> strings_HasPrefix rest1 ''///'')
                         \<and> strings_HasPrefix rest1 ''//''
                 then
                   (let a0 = drop 2 rest1;
                        authority = (case strings_Index a0 ''/'' of
                                       Some i \<Rightarrow> take i a0 | None \<Rightarrow> a0);
                        rest2 = (case strings_Index a0 ''/'' of
                                   Some i \<Rightarrow> drop i a0 | None \<Rightarrow> [])
                    in case parseAuthority authority of
                         Inl e \<Rightarrow> Inl e
                       | Inr (usr, host) \<Rightarrow> setPath (u2\<lparr>User := usr, Host := host\<rparr>) rest2)
                 else if Scheme u2 \<noteq> [] \<and> strings_HasPrefix rest1 ''/''
                 then setPath (u2\<lparr>OmitHost := True\<rparr>) rest1
                 else setPath u2 rest1)))"

definition ParseRequestURI :: "string \<Rightarrow> error + url_URL" where
  "ParseRequestURI rawURL = parse rawURL True"

subsection \<open>The library as the notifier takes it\<close>

text \<open>
  The functions of the notifier take the three library functions as a parameter;
  \<open>golib\<close> is the Go library itself.
\<close>

record GoLib =
  url_ParseRequestURI :: "string \<Rightarrow> error + url_URL"
  path_Join :: "string list \<Rightarrow> string"
  URL_String :: "url_URL \<Rightarrow> string"

definition golib :: GoLib where
  "golib = \<lparr>url_ParseRequestURI = ParseRequestURI, path_Join = Join, URL_String = String\<rparr>"

text \<open>
  \<open>json.Marshal\<close> of a \<open>CallbackInfo\<close> (a bool and three strings) has no failing
  input; the body of the POST is kept as the structure it encodes.
\<close>

definition json_Marshal :: "CallbackInfo \<Rightarrow> error + CallbackInfo" where
  "json_Marshal c = Inr c"

section \<open>The notifier\<close>

definition maxCallbackRetries :: int where
  "maxCallbackRetries = 2"

text \<open>
  The fields of \<open>Notifier\<close> that \<open>New\<close> takes from its arguments; \<open>Storage\<close> and
  \<open>Log\<close> are the pointers it is given, the store and the log themselves live in the
  \<open>World\<close>.
\<close>

record Notifier =
  Storage :: nat
  Log :: nat
  DownloadURL :: url_URL
  concurrency :: int

definition New :: "GoLib \<Rightarrow> nat \<Rightarrow> int \<Rightarrow> nat \<Rightarrow> string \<Rightarrow> error + Notifier" where
  "New lib s conc logger dwnlURL =
     (case url_ParseRequestURI lib dwnlURL of
        Inl err \<Rightarrow> Inl (Err (''Could not parse Download URL, '' @ Error err))
      | Inr u \<Rightarrow>
          if conc \<le> 0 then Inl (Err ''Notifier Concurrency must be a positive number'')
          else Inr \<lparr>Storage = s, Log = logger, DownloadURL = u, concurrency = conc\<rparr>)"

definition jobDownloadURL :: "GoLib \<Rightarrow> Job \<Rightarrow> url_URL \<Rightarrow> string" where
  "jobDownloadURL lib j downloadURL =
     (if DownloadState j \<noteq> StateSuccess then []
      else URL_String lib (downloadURL\<lparr>Path := path_Join lib [Path downloadURL, ID j]\<rparr>))"

definition getCallbackInfo :: "GoLib \<Rightarrow> Notifier \<Rightarrow> Job \<Rightarrow> error + CallbackInfo" where
  "getCallbackInfo lib n j =
     (if DownloadState j \<noteq> StateSuccess \<and> DownloadState j \<noteq> StateFailed
      then Inl (Err (''Invalid job download state: '' @ [CHR 0x27]
                     @ State_string (DownloadState j) @ [CHR 0x27]))
      else Inr \<lparr>cb_Success = (DownloadState j = StateSuccess),
                cb_Error = DownloadMeta j,
                cb_Extra = Extra j,
                cb_DownloadURL = jobDownloadURL lib j (DownloadURL n)\<rparr>)"

text \<open>
  The methods below mutate the job through its pointer and write to the store: they
  return the error, the job as it is afterwards, and the world.
\<close>

definition markCbInProgress :: "Job \<Rightarrow> World \<Rightarrow> error option \<times> Job \<times> World" where
  "markCbInProgress j w =
     (let j1 = j\<lparr>CallbackState := StateInProgress\<rparr>;
          j2 = j1\<lparr>CallbackMeta := []\<rparr>
      in case SaveJob j2 w of (err, w') \<Rightarrow> (err, j2, w'))"

definition markCbFailed :: "Job \<Rightarrow> string list \<Rightarrow> World \<Rightarrow> error option \<times> Job \<times> World" where
  "markCbFailed j meta w =
     (let j1 = j\<lparr>CallbackState := StateFailed\<rparr>;
          j2 = j1\<lparr>CallbackMeta := strings_Join meta [CHR 0x0A]\<rparr>;
          w1 = Log_Print (LogCallbackFailed (ID j2) (AggrID j2) (CallbackURL j2)) w
      in case SaveJob j2 w1 of (err, w') \<Rightarrow> (err, j2, w'))"

definition retryOrFail :: "Job \<Rightarrow> string \<Rightarrow> World \<Rightarrow> error option \<times> Job \<times> World" where
  "retryOrFail j err w =
     (if CallbackCount j \<ge> maxCallbackRetries then markCbFailed j [err] w
      else QueuePendingCallback j w)"

definition Notify :: "GoLib \<Rightarrow> Notifier \<Rightarrow> Job \<Rightarrow> World \<Rightarrow> error option \<times> Job \<times> World" where
  "Notify lib n j w =
     (let j1 = j\<lparr>CallbackCount := CallbackCount j + 1\<rparr> in
      case markCbInProgress j1 w of
        (Some err, j2, w2) \<Rightarrow> (Some err, j2, w2)
      | (None, j2, w2) \<Rightarrow>
          (case getCallbackInfo lib n j2 of
             Inl err \<Rightarrow> markCbFailed j2 [Error err] w2
           | Inr cbInfo \<Rightarrow>
               (case json_Marshal cbInfo of
                  Inl err \<Rightarrow> markCbFailed j2 [Error err] w2
                | Inr cb \<Rightarrow>
                    (case client_Post (CallbackURL j2) ''application/json'' cb w2 of
                       (Inl err, w3) \<Rightarrow> retryOrFail j2 (Error err) w3
                     | (Inr res, w3) \<Rightarrow>
                         if StatusCode res < 200 \<or> StatusCode res \<ge> 300
                         then retryOrFail j2
                                (Error (Err (''Received Status: '' @ Status res))) w3
                         else (case RemoveJob (ID j2) w3 of (e, w4) \<Rightarrow> (e, j2, w4))))))"

subsection \<open>Recovery scan\<close>

text \<open>The loop over one page of keys, \<open>rc\<close> being \<open>rogueCount\<close>.\<close>

fun requeueKeys :: "string list \<Rightarrow> 64 word \<Rightarrow> World \<Rightarrow> 64 word \<times> World" where
  "requeueKeys [] rc w = (rc, w)"
| "requeueKeys (jobID # keys) rc w =
     (case Redis_HGet_CallbackState jobID w of
        (Inl err, w1) \<Rightarrow> requeueKeys keys rc (Log_Print (LogErr err) w1)
      | (Inr st, w1) \<Rightarrow>
          if st = StateInProgress then
            (case GetJob (strings_TrimPrefix jobID (JobKeyPrefix w1)) w1 of
               (Inl err, w2) \<Rightarrow> requeueKeys keys rc (Log_Print (LogCouldNotGetJob err) w2)
             | (Inr jb, w2) \<Rightarrow>
                 (case QueuePendingCallback jb w2 of
                    (Some err, jb', w3) \<Rightarrow>
                      requeueKeys keys rc (Log_Print (LogCouldNotQueue err) w3)
                  | (None, jb', w3) \<Rightarrow> requeueKeys keys (rc + 1) w3))
          else requeueKeys keys rc w1)"

text \<open>
  The scan loop. It ends when a page fails or the cursor comes back to 0; the store
  decides whether that ever happens, so the loop runs on fuel and \<open>None\<close> is a scan
  still running when the fuel is spent.
\<close>

fun scanLoop :: "nat \<Rightarrow> 64 word \<Rightarrow> 64 word \<Rightarrow> World \<Rightarrow> (64 word \<times> World) option" where
  "scanLoop 0 cursor rc w = None"
| "scanLoop (Suc fuel) cursor rc w =
     (case Redis_Scan cursor (JobKeyPrefix w @ ''*'') 50 w of
        (Inl err, w1) \<Rightarrow> Some (rc, Log_Print (LogErr err) w1)
      | (Inr (keys, cursor'), w1) \<Rightarrow>
          (case requeueKeys keys rc w1 of
             (rc', w2) \<Rightarrow>
               if cursor' = 0 then Some (rc', w2) else scanLoop fuel cursor' rc' w2))"

definition collectRogueCallbacks :: "nat \<Rightarrow> Notifier \<Rightarrow> World \<Rightarrow> World option" where
  "collectRogueCallbacks fuel n w =
     (case scanLoop fuel 0 0 w of
        None \<Rightarrow> None
      | Some (rogueCount, w') \<Rightarrow>
          Some (if rogueCount > 0 then Log_Print (LogQueuedRogue rogueCount) w' else w'))"

subsection \<open>Dispatch\<close>

text \<open>
  \<open>Start\<close> in the schedule where the worker that receives a job delivers it before the
  dispatcher pops the next one. \<open>ticks\<close> is the number of times the dispatcher finds
  \<open>closeChan\<close> empty and takes the \<open>default\<close> branch before the shutdown signal arrives.
\<close>

fun dispatch :: "GoLib \<Rightarrow> Notifier \<Rightarrow> nat \<Rightarrow> World \<Rightarrow> World" where
  "dispatch lib n 0 w = w"
| "dispatch lib n (Suc ticks) w =
     (case PopCallback w of
        (Inl err, w1) \<Rightarrow>
          dispatch lib n ticks
            (emit EvSleep
               (case err of
                  ErrEmptyQueue \<Rightarrow> w1
                | ErrRetryLater \<Rightarrow> w1
                | Err m \<Rightarrow> Log_Print (LogErr err) w1))
      | (Inr jb, w1) \<Rightarrow>
          (case Notify lib n jb w1 of
             (None, j', w2) \<Rightarrow> dispatch lib n ticks w2
           | (Some err, j', w2) \<Rightarrow> dispatch lib n ticks (Log_Print (LogNotifyError err) w2)))"

definition Start :: "GoLib \<Rightarrow> Notifier \<Rightarrow> nat \<Rightarrow> nat \<Rightarrow> World \<Rightarrow> World option" where
  "Start lib n fuel ticks w =
     (case collectRogueCallbacks fuel n w of
        None \<Rightarrow> None
      | Some w1 \<Rightarrow> Some (dispatch lib n ticks w1))"

section \<open>The key scan as the store answers it\<close>

text \<open>
  Modelled from the spec: \<open>ScanKeys\<close> enumerates the job-record keys page by page, from
  a cursor, and is over when the cursor returns to its start sentinel 0. \<open>scannedKeys k
  sc c\<close> is the list of keys that the answers \<open>sc\<close> hand out from cursor \<open>c\<close> until the
  enumeration is over or a page fails, and \<open>None\<close> if that takes more than \<open>k\<close> pages.
\<close>

fun scannedKeys ::
  "nat \<Rightarrow> (64 word \<Rightarrow> error + (string list \<times> 64 word)) \<Rightarrow> 64 word \<Rightarrow> string list option" where
  "scannedKeys 0 sc c = None"
| "scannedKeys (Suc k) sc c =
     (case sc c of
        Inl err \<Rightarrow> Some []
      | Inr (keys, c') \<Rightarrow>
          if c' = 0 then Some keys else map_option (\<lambda>ks. keys @ ks) (scannedKeys k sc c'))"

text \<open>
  What a scan that lists the keys \<open>ks\<close> does to a table \<open>J\<close> of records kept under the
  prefix \<open>p\<close>: the records that are \<open>StateInProgress\<close> and whose key is listed are the ones
  requeued, and the requeue leaves them \<open>StatePending\<close>.
\<close>

definition requeued :: "string \<Rightarrow> (string \<rightharpoonup> Job) \<Rightarrow> string list \<Rightarrow> string \<Rightarrow> bool" where
  "requeued p J ks i =
     (p @ i \<in> set ks \<and> (\<exists>jb. J i = Some jb \<and> CallbackState jb = StateInProgress))"

definition afterScan :: "string \<Rightarrow> (string \<rightharpoonup> Job) \<Rightarrow> string list \<Rightarrow> (string \<rightharpoonup> Job)" where
  "afterScan p J ks =
     (\<lambda>i. if requeued p J ks i
          then map_option (\<lambda>jb. jb\<lparr>CallbackState := StatePending\<rparr>) (J i)
          else J i)"

section \<open>Decoding a job\<close>

text \<open>
  Modelled from the spec: \<open>Job.UnmarshalJSON\<close> is exercised by \<open>TestUnmarshalJSON\<close> but
  its code is not among the sources. The wire payload is the JSON value the bytes parse to,
  \<open>None\<close> when they are not well-formed; \<open>member\<close> is the value of a name in an object (the
  last one, should the name occur twice). Which strings are absolute URIs is a parameter.
  The decoder fills the fields of the receiver that the payload carries.
\<close>

datatype json = JNull | JBool bool | JNum rat | JStr string
  | JArr "json list" | JObj "(string \<times> json) list"

fun member :: "json option \<Rightarrow> string \<Rightarrow> json option" where
  "member (Some (JObj fs)) name = map_of (rev fs) name"
| "member p name = None"

definition requiredString :: "json option \<Rightarrow> string \<Rightarrow> string option" where
  "requiredString p name =
     (case member p name of
        Some (JStr s) \<Rightarrow> if s = [] then None else Some s
      | _ \<Rightarrow> None)"

definition UnmarshalJSON :: "(string \<Rightarrow> bool) \<Rightarrow> Job \<Rightarrow> json option \<Rightarrow> error + Job" where
  "UnmarshalJSON absoluteURI j p =
     (if p = None then Inl (Err ''malformed payload'')
      else case requiredString p ''aggr_id'' of
        None \<Rightarrow> Inl (Err ''aggr_id must be a non-empty string'')
      | Some a \<Rightarrow>
      (case requiredString p ''url'' of
        None \<Rightarrow> Inl (Err ''url must be a non-empty string'')
      | Some u \<Rightarrow>
      if \<not> absoluteURI u then Inl (Err ''url must be an absolute URI'')
      else
      (case requiredString p ''callback_url'' of
        None \<Rightarrow> Inl (Err ''callback_url must be a non-empty string'')
      | Some c \<Rightarrow>
      if \<not> absoluteURI c then Inl (Err ''callback_url must be an absolute URI'')
      else
      (let x = (case member p ''extra'' of Some (JStr s) \<Rightarrow> s | _ \<Rightarrow> []);
           j' = j\<lparr>AggrID := a, URL := u, CallbackURL := c, Extra := x\<rparr>
       in case member p ''download_timeout'' of
            None \<Rightarrow> Inr j'
          | Some (JNum r) \<Rightarrow>
              if r \<in> \<int> \<and> 0 < r then Inr (j'\<lparr>DownloadTimeout := Some \<lfloor>r\<rfloor>\<rparr>)
              else Inl (Err ''download_timeout must be a positive integer'')
          | Some _ \<Rightarrow> Inl (Err ''download_timeout must be a positive integer'')))))"

section \<open>Sample data\<close>

text \<open>
  The job, notifier and store of the spec's scenarios, and a small stand-in for the
  library, right on URLs of the shape \<open>http://host/path\<close>, for the examples in which the
  library plays no part. They serve to run the model; no general result depends on them.
\<close>

definition sample_lib :: GoLib where
  "sample_lib =
     \<lparr>url_ParseRequestURI =
        (\<lambda>s. if strings_HasPrefix s ''http://''
              then Inr (new_URL\<lparr>Scheme := ''http'',
                        Host := takeWhile (\<lambda>c. c \<noteq> CHR ''/'') (drop 7 s),
                        Path := dropWhile (\<lambda>c. c \<noteq> CHR ''/'') (drop 7 s)\<rparr>)
              else Inl (Err ''invalid URI for request'')),
      path_Join = (\<lambda>xs. strings_Join (filter (\<lambda>x. x \<noteq> []) xs) ''/''),
      URL_String = (\<lambda>u. Scheme u @ ''://'' @ Host u @ Path u)\<rparr>"

definition sample_absoluteURI :: "string \<Rightarrow> bool" where
  "sample_absoluteURI s = strings_HasPrefix s ''http://''"

definition sample_notifier :: Notifier where
  "sample_notifier =
     \<lparr>Storage = 1, Log = 2,
      DownloadURL = new_URL\<lparr>Scheme := ''http'', Host := ''dl.example'', Path := ''/files''\<rparr>,
      concurrency = 1\<rparr>"

definition sample_job :: Job where
  "sample_job =
     \<lparr>ID = ''j1'', AggrID = ''A'', URL = ''http://src/x'', CallbackURL = ''http://dst/cb'',
      Extra = [], DownloadTimeout = None, DownloadState = StateSuccess, DownloadMeta = [],
      CallbackState = StatePending, CallbackMeta = [], CallbackCount = 0\<rparr>"

definition status500 :: Response where
  "status500 = \<lparr>StatusCode = 500, Status = ''500 Internal Server Error''\<rparr>"

definition status200 :: Response where
  "status200 = \<lparr>StatusCode = 200, Status = ''200 OK''\<rparr>"

definition sample_world :: World where
  "sample_world =
     \<lparr>JobKeyPrefix = ''jobs:'',
      jobs = [''j1'' \<mapsto> sample_job],
      callbackQueue = [],
      scan = (\<lambda>c. Inr ([''jobs:j1''], 0)),
      faults = [],
      responses = [],
      trace = []\<rparr>"

text \<open>The payloads of the decoder's test: the three required members and the others.\<close>

definition test_payload :: "json \<Rightarrow> json \<Rightarrow> json \<Rightarrow> (string \<times> json) list \<Rightarrow> json option" where
  "test_payload aggr u cb others =
     Some (JObj ([(''aggr_id'', aggr), (''url'', u), (''callback_url'', cb)] @ others))"

text \<open>
  A store with two orphaned records whose key scan hands out the first key, then fails.
\<close>

definition two_page_world :: World where
  "two_page_world =
     sample_world
       \<lparr>jobs := [''j1'' \<mapsto> sample_job\<lparr>CallbackState := StateInProgress\<rparr>,
                 ''j2'' \<mapsto> sample_job\<lparr>ID := ''j2'', CallbackState := StateInProgress\<rparr>],
        scan := (\<lambda>c. if c = 0 then Inr ([''jobs:j1''], 7) else Inl (Err ''i/o timeout''))\<rparr>"


section \<open>Lemmas on the library\<close>



lemma Join_empty: "\<forall>e \<in> set elem. e = [] \<Longrightarrow> Join elem = []"
  by (simp add: Join_def Let_def dropWhile_eq_Nil_conv)





text \<open>\<open>getScheme\<close> either finds no scheme and hands the input back, or splits it at a colon.\<close>

lemma getScheme_from_shape:
  "getScheme_from raw i cs = Inr (sch, rest) \<Longrightarrow> raw = pre @ cs \<Longrightarrow> length pre = i \<Longrightarrow>
   sch = [] \<and> rest = raw \<or> sch \<noteq> [] \<and> raw = sch @ CHR '':'' # rest"
proof (induction cs arbitrary: i pre)
  case Nil
  then show ?case by simp
next
  case (Cons c cs)
  have step: "raw = (pre @ [c]) @ cs" "length (pre @ [c]) = Suc i"
    using Cons.prems by simp_all
  show ?case
  proof (cases "getScheme_from raw i (c # cs) = getScheme_from raw (Suc i) cs")
    case True
    with Cons.prems(1) have "getScheme_from raw (Suc i) cs = Inr (sch, rest)" by simp
    from Cons.IH [OF this step] show ?thesis .
  next
    case False
    with Cons.prems show ?thesis
      by (auto split: if_splits)
  qed
qed

lemma getScheme_shape:
  "getScheme raw = Inr (sch, rest) \<Longrightarrow>
   sch = [] \<and> rest = raw \<or> sch \<noteq> [] \<and> raw = sch @ CHR '':'' # rest"
  unfolding getScheme_def by (rule getScheme_from_shape [where pre = "[]"]) simp_all

lemma strings_Cut_fst_take: "\<exists>k. fst (strings_Cut s sep) = take k s"
  by (cases "strings_Index s sep") (auto simp: strings_Cut_def intro: exI [of _ "length s"])

lemma HasPrefix_slash: "strings_HasPrefix s ''/'' = (\<exists>r. s = CHR ''/'' # r)"
  by (cases s) (auto simp: strings_HasPrefix_def)

lemma take_slash: "take k s = CHR ''/'' # r \<Longrightarrow> \<exists>r'. s = CHR ''/'' # r'"
  by (cases s; cases k) auto

text \<open>What \<open>parse\<close> reads the path from is a prefix of what follows the scheme.\<close>

lemma rest1_take:
  "\<exists>k. (if force then butlast rest0 else fst (strings_Cut rest0 ''?'')) = take k rest0"
  using strings_Cut_fst_take [of rest0 "''?''"]
  by (auto simp: butlast_conv_take)



lemma ToLower_nonempty: "(strings_ToLower s = []) = (s = [])"
  by (simp add: strings_ToLower_def)

lemma parse_accepts:
  assumes "parse t True = Inr u"
  shows "t = ''*'' \<or> (\<exists>sch rest. sch \<noteq> [] \<and> t = sch @ CHR '':'' # rest)
         \<or> (\<exists>rest. t = CHR ''/'' # rest)"
proof (cases "t = ''*''")
  case True
  then show ?thesis by simp
next
  case False
  from assms False obtain sch rest0 where g: "getScheme t = Inr (sch, rest0)"
    by (auto simp: parse_def split: if_splits sum.splits)
  from getScheme_shape [OF g] show ?thesis
  proof
    assume "sch \<noteq> [] \<and> t = sch @ CHR '':'' # rest0"
    then show ?thesis by blast
  next
    assume n: "sch = [] \<and> rest0 = t"
    define force where "force = (strings_HasSuffix rest0 ''?'' \<and> count_list rest0 CHR ''?'' = 1)"
    define rest1 where "rest1 = (if force then butlast rest0 else fst (strings_Cut rest0 ''?''))"
    have "strings_HasPrefix rest1 ''/''"
      using assms False g n
      by (auto simp: parse_def Let_def ToLower_nonempty new_URL_def rest1_def force_def
               split: if_splits)
    moreover obtain k where "rest1 = take k rest0"
      using rest1_take [of force rest0] by (auto simp: rest1_def)
    ultimately show ?thesis
      using n by (auto simp: HasPrefix_slash dest: take_slash)
  qed
qed


lemma parse_rejects_relative:
  assumes "getScheme t = Inr ([], t)" and "t \<noteq> ''*''" and "\<not> strings_HasPrefix t ''/''"
  shows "\<exists>e. parse t True = Inl e"
proof -
  define force where "force = (strings_HasSuffix t ''?'' \<and> count_list t CHR ''?'' = 1)"
  define rest1 where "rest1 = (if force then butlast t else fst (strings_Cut t ''?''))"
  obtain k where "rest1 = take k t"
    using rest1_take [of force t] by (auto simp: rest1_def)
  with assms(3) have "\<not> strings_HasPrefix rest1 ''/''"
    by (auto simp: HasPrefix_slash dest: take_slash)
  then show ?thesis
    using assms(1,2)
    by (auto simp: parse_def Let_def new_URL_def strings_ToLower_def rest1_def force_def)
qed


text \<open>The library at the inputs of the examples.\<close>

lemma parse_http_files:
  "ParseRequestURI ''http://dl.example/files'' =
     Inr (new_URL\<lparr>Scheme := ''http'', Host := ''dl.example'', Path := ''/files''\<rparr>)"
  by code_simp

lemma parse_files: "ParseRequestURI ''/files'' = Inr (new_URL\<lparr>Path := ''/files''\<rparr>)"
  by code_simp

lemma parse_relative:
  "ParseRequestURI ''dl.example/files'' = Inl (Err ''invalid URI for request'')"
  by code_simp

lemma getScheme_relative: "getScheme ''dl.example/files'' = Inr ([], ''dl.example/files'')"
  by code_simp




section \<open>Lemmas on the store and on the steps of a delivery\<close>

subsection \<open>Store calls\<close>

lemma store_call_healthy:
  "faults w = [] \<Longrightarrow> store_call ev w = (None, w\<lparr>trace := trace w @ [ev]\<rparr>)"
  by (simp add: store_call_def emit_def)

lemma store_call_fault:
  "faults w = f # fs \<Longrightarrow> store_call ev w = (f, w\<lparr>faults := fs, trace := trace w @ [ev]\<rparr>)"
  by (simp add: store_call_def emit_def)

lemma store_call_trace: "store_call ev w = (e, w') \<Longrightarrow> trace w' = trace w @ [ev]"
  by (auto simp: store_call_def emit_def split: list.splits)

lemma SaveJob_healthy:
  "faults w = [] \<Longrightarrow>
   SaveJob j w = (None, w\<lparr>jobs := (jobs w)(ID j \<mapsto> j), trace := trace w @ [EvSaveJob j]\<rparr>)"
  by (simp add: SaveJob_def store_call_healthy)

lemma SaveJob_fault:
  "faults w = Some e # fs \<Longrightarrow>
   SaveJob j w = (Some e, w\<lparr>faults := fs, trace := trace w @ [EvSaveJob j]\<rparr>)"
  by (simp add: SaveJob_def store_call_fault)

lemma SaveJob_trace: "SaveJob j w = (e, w') \<Longrightarrow> trace w' = trace w @ [EvSaveJob j]"
  by (auto simp: SaveJob_def split: prod.splits option.splits dest: store_call_trace)

lemma RemoveJob_healthy:
  "faults w = [] \<Longrightarrow>
   RemoveJob i w = (None, w\<lparr>jobs := (jobs w)(i := None), trace := trace w @ [EvRemoveJob i]\<rparr>)"
  by (simp add: RemoveJob_def store_call_healthy)

lemma RemoveJob_trace: "RemoveJob i w = (e, w') \<Longrightarrow> trace w' = trace w @ [EvRemoveJob i]"
  by (auto simp: RemoveJob_def split: prod.splits option.splits dest: store_call_trace)

lemma QueuePendingCallback_healthy:
  "faults w = [] \<Longrightarrow>
   QueuePendingCallback j w =
     (None, j\<lparr>CallbackState := StatePending\<rparr>,
      w\<lparr>jobs := (jobs w)(ID j \<mapsto> j\<lparr>CallbackState := StatePending\<rparr>),
        callbackQueue := callbackQueue w @ [ID j],
        trace := trace w @ [EvQueuePendingCallback j]\<rparr>)"
  by (simp add: QueuePendingCallback_def Let_def store_call_healthy)

lemma QueuePendingCallback_trace:
  "QueuePendingCallback j w = (e, j', w') \<Longrightarrow>
   j' = j\<lparr>CallbackState := StatePending\<rparr> \<and> trace w' = trace w @ [EvQueuePendingCallback j]"
  by (auto simp: QueuePendingCallback_def Let_def split: prod.splits option.splits
           dest: store_call_trace)

lemma client_Post_trace:
  "client_Post u c b w = (r, w') \<Longrightarrow> trace w' = trace w @ [EvPost u c b]"
  by (auto simp: client_Post_def emit_def split: list.splits)

lemma client_Post_faults: "client_Post u c b w = (r, w') \<Longrightarrow> faults w' = faults w"
  by (auto simp: client_Post_def emit_def split: list.splits)

subsection \<open>The steps of a delivery\<close>

lemma markCbFailed_healthy:
  "faults w = [] \<Longrightarrow>
   markCbFailed j meta w =
     (None, j\<lparr>CallbackState := StateFailed, CallbackMeta := strings_Join meta [CHR 0x0A]\<rparr>,
      w\<lparr>jobs := (jobs w)(ID j \<mapsto>
               j\<lparr>CallbackState := StateFailed, CallbackMeta := strings_Join meta [CHR 0x0A]\<rparr>),
        trace := trace w @
          [EvLog (LogCallbackFailed (ID j) (AggrID j) (CallbackURL j)),
           EvSaveJob (j\<lparr>CallbackState := StateFailed,
                         CallbackMeta := strings_Join meta [CHR 0x0A]\<rparr>)]\<rparr>)"
  by (simp add: markCbFailed_def Let_def Log_Print_def emit_def SaveJob_healthy)

lemma markCbFailed_trace:
  "markCbFailed j meta w = (e, j', w') \<Longrightarrow>
   j' = j\<lparr>CallbackState := StateFailed, CallbackMeta := strings_Join meta [CHR 0x0A]\<rparr> \<and>
   trace w' = trace w @ [EvLog (LogCallbackFailed (ID j) (AggrID j) (CallbackURL j)), EvSaveJob j']"
  by (auto simp: markCbFailed_def Let_def Log_Print_def emit_def split: prod.splits
           dest: SaveJob_trace)

lemma retryOrFail_trace:
  "retryOrFail j err w = (e, j', w') \<Longrightarrow>
   (if 2 \<le> CallbackCount j
    then j' = j\<lparr>CallbackState := StateFailed, CallbackMeta := err\<rparr> \<and>
         trace w' = trace w @ [EvLog (LogCallbackFailed (ID j) (AggrID j) (CallbackURL j)),
                               EvSaveJob j']
    else j' = j\<lparr>CallbackState := StatePending\<rparr> \<and>
         trace w' = trace w @ [EvQueuePendingCallback j])"
  by (auto simp: retryOrFail_def maxCallbackRetries_def split: prod.splits if_splits
           dest: markCbFailed_trace QueuePendingCallback_trace)

lemma retryOrFail_healthy:
  "faults w = [] \<Longrightarrow>
   retryOrFail j err w =
     (if 2 \<le> CallbackCount j
      then (None, j\<lparr>CallbackState := StateFailed, CallbackMeta := err\<rparr>,
            w\<lparr>jobs := (jobs w)(ID j \<mapsto> j\<lparr>CallbackState := StateFailed, CallbackMeta := err\<rparr>),
              trace := trace w @
                [EvLog (LogCallbackFailed (ID j) (AggrID j) (CallbackURL j)),
                 EvSaveJob (j\<lparr>CallbackState := StateFailed, CallbackMeta := err\<rparr>)]\<rparr>)
      else (None, j\<lparr>CallbackState := StatePending\<rparr>,
            w\<lparr>jobs := (jobs w)(ID j \<mapsto> j\<lparr>CallbackState := StatePending\<rparr>),
              callbackQueue := callbackQueue w @ [ID j],
              trace := trace w @ [EvQueuePendingCallback j]\<rparr>))"
  by (simp add: retryOrFail_def maxCallbackRetries_def markCbFailed_healthy
                QueuePendingCallback_healthy)

lemma markCbInProgress_healthy:
  "faults w = [] \<Longrightarrow>
   markCbInProgress j w =
     (None, j\<lparr>CallbackState := StateInProgress, CallbackMeta := []\<rparr>,
      w\<lparr>jobs := (jobs w)(ID j \<mapsto> j\<lparr>CallbackState := StateInProgress, CallbackMeta := []\<rparr>),
        trace := trace w @
          [EvSaveJob (j\<lparr>CallbackState := StateInProgress, CallbackMeta := []\<rparr>)]\<rparr>)"
  by (simp add: markCbInProgress_def Let_def SaveJob_healthy)

lemma markCbInProgress_fault:
  "faults w = Some e # fs \<Longrightarrow>
   markCbInProgress j w =
     (Some e, j\<lparr>CallbackState := StateInProgress, CallbackMeta := []\<rparr>,
      w\<lparr>faults := fs,
        trace := trace w @
          [EvSaveJob (j\<lparr>CallbackState := StateInProgress, CallbackMeta := []\<rparr>)]\<rparr>)"
  by (simp add: markCbInProgress_def Let_def SaveJob_fault)

lemma markCbInProgress_trace:
  "markCbInProgress j w = (e, j', w') \<Longrightarrow>
   j' = j\<lparr>CallbackState := StateInProgress, CallbackMeta := []\<rparr> \<and>
   trace w' = trace w @ [EvSaveJob j']"
  by (auto simp: markCbInProgress_def Let_def split: prod.splits dest: SaveJob_trace)


lemma Notify_trace_shape:
  "\<exists>evs. trace (snd (snd (Notify lib n j w))) =
            trace w @ EvSaveJob (j\<lparr>CallbackCount := CallbackCount j + 1,
                                    CallbackState := StateInProgress, CallbackMeta := []\<rparr>) # evs \<and>
          (\<forall>jb. EvSaveJob jb \<in> set evs \<longrightarrow> CallbackState jb = StateFailed)"
proof -
  let ?j1 = "j\<lparr>CallbackCount := CallbackCount j + 1\<rparr>"
  obtain e j2 w2 where m: "markCbInProgress ?j1 w = (e, j2, w2)"
    by (cases "markCbInProgress ?j1 w") auto
  note t2 = markCbInProgress_trace [OF m]
  show ?thesis
  proof (cases e)
    case (Some err)
    then show ?thesis using m t2 by (simp add: Notify_def Let_def)
  next
    case None
    show ?thesis
    proof (cases "getCallbackInfo lib n j2")
      case (Inl err)
      obtain e3 j3 w3 where f: "markCbFailed j2 [Error err] w2 = (e3, j3, w3)"
        by (cases "markCbFailed j2 [Error err] w2") auto
      show ?thesis
        using m None Inl f t2 markCbFailed_trace [OF f]
        by (simp add: Notify_def Let_def)
    next
      case (Inr c)
      obtain r w3 where p: "client_Post (CallbackURL j2) ''application/json'' c w2 = (r, w3)"
        by (cases "client_Post (CallbackURL j2) ''application/json'' c w2") auto
      note t3 = client_Post_trace [OF p]
      show ?thesis
      proof (cases r)
        case (Inl err)
        obtain e4 j4 w4 where f: "retryOrFail j2 (Error err) w3 = (e4, j4, w4)"
          by (cases "retryOrFail j2 (Error err) w3") auto
        show ?thesis
          using m None Inr Inl p f t2 t3 retryOrFail_trace [OF f]
          by (simp add: Notify_def Let_def json_Marshal_def split: if_splits)
      next
        case res: (Inr res)
        obtain e4 j4 w4 where f: "retryOrFail j2 (''Received Status: '' @ Status res) w3 = (e4, j4, w4)"
          by (cases "retryOrFail j2 (''Received Status: '' @ Status res) w3") auto
        obtain e5 w5 where g: "RemoveJob (ID j2) w3 = (e5, w5)"
          by (cases "RemoveJob (ID j2) w3") auto
        show ?thesis
          using m None Inr res p f g t2 t3 retryOrFail_trace [OF f] RemoveJob_trace [OF g]
          by (simp add: Notify_def Let_def json_Marshal_def split: if_splits)
      qed
    qed
  qed
qed

lemmas delivery_simps = Notify_def Let_def markCbInProgress_healthy getCallbackInfo_def
  jobDownloadURL_def json_Marshal_def client_Post_def emit_def retryOrFail_healthy
  markCbFailed_healthy RemoveJob_healthy

lemmas sample_defs = sample_lib_def sample_notifier_def sample_job_def sample_world_def
  status500_def status200_def strings_HasPrefix_def


section \<open>Delivery, payload and construction\<close>

text \<open>
  C1. A delivery attempt on an eligible job whose POST fails (no answer in time, a transport
  error, or a status outside 200..299), against a healthy store: the count is one more than
  before; the job is marked \<open>StateFailed\<close> exactly when that count has reached 2, and then
  the failure reason is its \<open>CallbackMeta\<close>, the record is saved (the last call of the
  attempt) and the queue is as before; below 2 the job, \<open>StateInProgress\<close> until then, is
  handed to \<open>QueuePendingCallback\<close> (the last call of the attempt), which pushes it on the
  pending-callback queue and leaves it \<open>StatePending\<close>.
\<close>

theorem Notify_failed_delivery:
  assumes "faults w = []"
    and "DownloadState j = StateSuccess \<or> DownloadState j = StateFailed"
    and "responses w = [] \<and> reason = ''Client.Timeout exceeded'' \<or>
         (\<exists>err rs. responses w = Inl err # rs \<and> reason = Error err) \<or>
         (\<exists>res rs. responses w = Inr res # rs \<and>
            (StatusCode res < 200 \<or> 300 \<le> StatusCode res) \<and>
            reason = ''Received Status: '' @ Status res)"
  shows "\<exists>j' w'. Notify lib n j w = (None, j', w') \<and>
           CallbackCount j' = CallbackCount j + 1 \<and>
           (CallbackState j' = StateFailed \<longleftrightarrow> 2 \<le> CallbackCount j') \<and>
           jobs w' = (jobs w)(ID j \<mapsto> j') \<and>
           (2 \<le> CallbackCount j' \<longrightarrow>
              CallbackState j' = StateFailed \<and> CallbackMeta j' = reason \<and>
              last (trace w') = EvSaveJob j' \<and>
              callbackQueue w' = callbackQueue w) \<and>
           (CallbackCount j' < 2 \<longrightarrow>
              CallbackState j' = StatePending \<and>
              last (trace w') =
                EvQueuePendingCallback (j'\<lparr>CallbackState := StateInProgress\<rparr>) \<and>
              callbackQueue w' = callbackQueue w @ [ID j])"
  using assms by (auto simp: delivery_simps)

text \<open>The second 500 in a row: failed for good, with count 2 and the status as reason.\<close>

theorem Notify_failed_delivery_witness:
  "\<exists>j' w'. Notify sample_lib sample_notifier (sample_job\<lparr>CallbackCount := 1\<rparr>)
              (sample_world\<lparr>responses := [Inr status500]\<rparr>) = (None, j', w') \<and>
           CallbackCount j' = 2 \<and> CallbackState j' = StateFailed \<and>
           CallbackMeta j' = ''Received Status: 500 Internal Server Error'' \<and>
           jobs w' ''j1'' = Some j' \<and> callbackQueue w' = []"
  using Notify_failed_delivery
    [where w = "sample_world\<lparr>responses := [Inr status500]\<rparr>"
       and j = "sample_job\<lparr>CallbackCount := 1\<rparr>"
       and reason = "''Received Status: 500 Internal Server Error''"
       and lib = sample_lib and n = sample_notifier]
  by (auto simp: sample_defs)

text \<open>
  C2 as stated fails: a job still \<open>StatePending\<close> for its download, on its first attempt
  (count 1 after the increment, below 2), is marked \<open>StateFailed\<close> and is not pushed on the
  queue.
\<close>

theorem Notify_ineligible_not_requeued:
  "DownloadState (sample_job\<lparr>DownloadState := StatePending\<rparr>) \<noteq> StateSuccess \<and>
   DownloadState (sample_job\<lparr>DownloadState := StatePending\<rparr>) \<noteq> StateFailed \<and>
   CallbackCount (sample_job\<lparr>DownloadState := StatePending\<rparr>) + 1 < 2 \<and>
   CallbackState (fst (snd (Notify sample_lib sample_notifier
       (sample_job\<lparr>DownloadState := StatePending\<rparr>) sample_world))) = StateFailed \<and>
   callbackQueue (snd (snd (Notify sample_lib sample_notifier
       (sample_job\<lparr>DownloadState := StatePending\<rparr>) sample_world))) = []"
  by (simp add: delivery_simps sample_defs)

text \<open>
  C2, amended. A job whose \<open>DownloadState\<close> is neither \<open>StateSuccess\<close> nor \<open>StateFailed\<close>
  is failed by the very attempt that finds it so, whatever its count: \<open>Notify\<close> calls
  \<open>markCbFailed\<close>, not \<open>retryOrFail\<close>. Against a healthy store the attempt is the save, the
  log line and the save of the job as \<open>StateFailed\<close> with the invalid-state message as
  \<open>CallbackMeta\<close>; there is no POST and the queue is as before.
\<close>

theorem Notify_ineligible_fails_at_once:
  assumes "faults w = []"
    and "DownloadState j \<noteq> StateSuccess" and "DownloadState j \<noteq> StateFailed"
  shows "\<exists>j1 j' w'. Notify lib n j w = (None, j', w') \<and>
           j1 = j\<lparr>CallbackCount := CallbackCount j + 1, CallbackState := StateInProgress,
                   CallbackMeta := []\<rparr> \<and>
           j' = j1\<lparr>CallbackState := StateFailed,
                    CallbackMeta := ''Invalid job download state: '' @ [CHR 0x27]
                                    @ State_string (DownloadState j) @ [CHR 0x27]\<rparr> \<and>
           trace w' = trace w @ [EvSaveJob j1,
                                 EvLog (LogCallbackFailed (ID j) (AggrID j) (CallbackURL j)),
                                 EvSaveJob j'] \<and>
           jobs w' = (jobs w)(ID j \<mapsto> j') \<and>
           callbackQueue w' = callbackQueue w"
  using assms by (simp add: delivery_simps)

text \<open>A job whose download is still in progress.\<close>

theorem Notify_ineligible_fails_at_once_witness:
  "\<exists>j' w'. Notify sample_lib sample_notifier (sample_job\<lparr>DownloadState := StateInProgress\<rparr>)
              sample_world = (None, j', w') \<and>
           CallbackCount j' = 1 \<and> CallbackState j' = StateFailed \<and>
           CallbackMeta j' = ''Invalid job download state: '' @ [CHR 0x27] @ ''InProgress''
                             @ [CHR 0x27] \<and>
           jobs w' ''j1'' = Some j' \<and> callbackQueue w' = []"
  using Notify_ineligible_fails_at_once
    [where w = sample_world and j = "sample_job\<lparr>DownloadState := StateInProgress\<rparr>"
       and lib = sample_lib and n = sample_notifier]
  by (auto simp: sample_defs)



text \<open>
  C5. A delivery attempt on an eligible job whose POST is answered with a status in
  200..299, against a healthy store: the attempt is the save, the POST of the payload and
  \<open>RemoveJob\<close>, in that order; afterwards the store has no record of the job, and the
  queue is as before.
\<close>

theorem Notify_2xx_removes_job:
  assumes "faults w = []"
    and "DownloadState j = StateSuccess \<or> DownloadState j = StateFailed"
    and "responses w = Inr res # rs"
    and "200 \<le> StatusCode res" and "StatusCode res < 300"
  shows "\<exists>j1 c w'. Notify lib n j w = (None, j1, w') \<and>
           getCallbackInfo lib n j = Inr c \<and>
           trace w' = trace w @ [EvSaveJob j1, EvPost (CallbackURL j) ''application/json'' c,
                                 EvRemoveJob (ID j)] \<and>
           jobs w' = (jobs w)(ID j := None) \<and> jobs w' (ID j) = None \<and>
           callbackQueue w' = callbackQueue w"
  using assms by (auto simp: delivery_simps)

text \<open>A 200 on the first attempt empties the store of the sample job.\<close>

theorem Notify_2xx_removes_job_witness:
  "\<exists>j1 w'. Notify sample_lib sample_notifier sample_job
              (sample_world\<lparr>responses := [Inr status200]\<rparr>) = (None, j1, w') \<and>
           jobs w' = Map.empty \<and> callbackQueue w' = []"
  using Notify_2xx_removes_job
    [where w = "sample_world\<lparr>responses := [Inr status200]\<rparr>" and j = sample_job
       and res = status200 and rs = "[]" and lib = sample_lib and n = sample_notifier]
  by (auto simp: sample_defs)

text \<open>
  C6. Whatever the job and the world, the first thing \<open>Notify\<close> does is to save the job
  with the count raised by one, \<open>StateInProgress\<close> and an empty \<open>CallbackMeta\<close>. If the
  store fails that save, \<open>Notify\<close> returns the store's error and the attempt is over: the
  trace holds that one call and no POST, and the records and the queue are untouched.
\<close>

theorem Notify_persists_first:
  "let j1 = j\<lparr>CallbackCount := CallbackCount j + 1, CallbackState := StateInProgress,
                CallbackMeta := []\<rparr>
   in (\<exists>evs. trace (snd (snd (Notify lib n j w))) = trace w @ EvSaveJob j1 # evs) \<and>
      (\<forall>e fs. faults w = Some e # fs \<longrightarrow>
         Notify lib n j w = (Some e, j1, w\<lparr>faults := fs, trace := trace w @ [EvSaveJob j1]\<rparr>))"
  using Notify_trace_shape [of lib n j w]
  by (auto simp: Let_def Notify_def markCbInProgress_fault)

text \<open>A store that refuses the first save.\<close>

theorem Notify_persists_first_witness:
  "Notify sample_lib sample_notifier sample_job
     (sample_world\<lparr>faults := [Some (Err ''connection refused'')]\<rparr>) =
   (Some (Err ''connection refused''),
    sample_job\<lparr>CallbackCount := 1, CallbackState := StateInProgress, CallbackMeta := []\<rparr>,
    sample_world\<lparr>faults := [],
      trace := [EvSaveJob (sample_job\<lparr>CallbackCount := 1, CallbackState := StateInProgress,
                                     CallbackMeta := []\<rparr>)]\<rparr>)"
  using Notify_persists_first
    [where w = "sample_world\<lparr>faults := [Some (Err ''connection refused'')]\<rparr>"
       and j = sample_job and lib = sample_lib and n = sample_notifier]
  by (simp add: Let_def sample_defs)

text \<open>
  C7 as stated fails: with a positive concurrency \<open>New\<close> accepts the template \<open>/files\<close>,
  an absolute path with no scheme and no host, which is not an absolute URL.
\<close>

theorem New_accepts_absolute_path:
  "New golib 1 1 2 ''/files'' =
     Inr \<lparr>Storage = 1, Log = 2, DownloadURL = new_URL\<lparr>Path := ''/files''\<rparr>, concurrency = 1\<rparr> \<and>
   Scheme (new_URL\<lparr>Path := ''/files''\<rparr>) = [] \<and> Host (new_URL\<lparr>Path := ''/files''\<rparr>) = []"
  by (simp add: New_def golib_def parse_files new_URL_def)

text \<open>
  C7, amended. \<open>New\<close> returns an error exactly when the concurrency is at most 0 or
  \<open>url.ParseRequestURI\<close> rejects the template. That parser takes an absolute URI or an
  absolute path: a template it accepts is \<open>*\<close>, or begins with a scheme and a colon, or
  begins with a slash; and a template in which it finds no scheme and which does not
  begin with a slash (and is not \<open>*\<close>) it rejects. When \<open>New\<close> succeeds, the notifier
  carries the parsed URL, the given concurrency, and the store and logger it was given.
\<close>

theorem New_contract:
  "((\<exists>e. New golib s conc logger t = Inl e) \<longleftrightarrow>
      (conc \<le> 0 \<or> (\<exists>e. ParseRequestURI t = Inl e))) \<and>
   (\<forall>u. ParseRequestURI t = Inr u \<longrightarrow>
      t = ''*'' \<or> (\<exists>sch rest. sch \<noteq> [] \<and> t = sch @ CHR '':'' # rest)
      \<or> (\<exists>rest. t = CHR ''/'' # rest)) \<and>
   (getScheme t = Inr ([], t) \<and> t \<noteq> ''*'' \<and> \<not> strings_HasPrefix t ''/''
      \<longrightarrow> (\<exists>e. ParseRequestURI t = Inl e)) \<and>
   (\<forall>n. New golib s conc logger t = Inr n \<longrightarrow>
      ParseRequestURI t = Inr (DownloadURL n) \<and> concurrency n = conc \<and>
      Storage n = s \<and> Log n = logger)"
proof -
  have 1: "(\<exists>e. New golib s conc logger t = Inl e) \<longleftrightarrow>
             (conc \<le> 0 \<or> (\<exists>e. ParseRequestURI t = Inl e))"
    by (auto simp: New_def golib_def split: sum.splits)
  have 2: "t = ''*'' \<or> (\<exists>sch rest. sch \<noteq> [] \<and> t = sch @ CHR '':'' # rest)
             \<or> (\<exists>rest. t = CHR ''/'' # rest)"
    if "ParseRequestURI t = Inr u" for u
    using that unfolding ParseRequestURI_def by (rule parse_accepts)
  have 3: "\<exists>e. ParseRequestURI t = Inl e"
    if "getScheme t = Inr ([], t) \<and> t \<noteq> ''*'' \<and> \<not> strings_HasPrefix t ''/''"
    using that unfolding ParseRequestURI_def by (auto intro: parse_rejects_relative)
  have 4: "ParseRequestURI t = Inr (DownloadURL n) \<and> concurrency n = conc \<and>
             Storage n = s \<and> Log n = logger"
    if "New golib s conc logger t = Inr n" for n
    using that by (auto simp: New_def golib_def split: sum.splits if_splits)
  from 1 2 3 4 show ?thesis by blast
qed

text \<open>
  An absolute URL is accepted, a zero concurrency is refused, and so is a template with
  neither scheme nor leading slash.
\<close>

theorem New_contract_witness:
  "(\<exists>n. New golib 1 4 2 ''http://dl.example/files'' = Inr n \<and> concurrency n = 4 \<and>
         ParseRequestURI ''http://dl.example/files'' = Inr (DownloadURL n)) \<and>
   (\<exists>e. New golib 1 0 2 ''http://dl.example/files'' = Inl e) \<and>
   (\<exists>e. New golib 1 4 2 ''dl.example/files'' = Inl e)"
proof -
  have a: "\<exists>n. New golib 1 4 2 ''http://dl.example/files'' = Inr n \<and> concurrency n = 4 \<and>
              ParseRequestURI ''http://dl.example/files'' = Inr (DownloadURL n)"
    using New_contract [of 1 4 2 "''http://dl.example/files''"]
    by (cases "New golib 1 4 2 ''http://dl.example/files''") (auto simp: parse_http_files)
  have b: "\<exists>e. New golib 1 0 2 ''http://dl.example/files'' = Inl e"
    using New_contract [of 1 0 2 "''http://dl.example/files''"] by simp
  have c: "\<exists>e. New golib 1 4 2 ''dl.example/files'' = Inl e"
    using New_contract [of 1 4 2 "''dl.example/files''"]
    by (simp add: getScheme_relative strings_HasPrefix_def)
  from a b c show ?thesis by blast
qed


section \<open>The recovery scan\<close>

lemma GetJob_healthy:
  "faults w = [] \<Longrightarrow>
   GetJob i w =
     (case jobs w i of
        None \<Rightarrow> (Inl (Err ''Not Found''), w\<lparr>trace := trace w @ [EvGetJob i]\<rparr>)
      | Some j \<Rightarrow> (Inr j, w\<lparr>trace := trace w @ [EvGetJob i]\<rparr>))"
  by (simp add: GetJob_def store_call_healthy)

lemma HGet_healthy:
  "faults w = [] \<Longrightarrow>
   Redis_HGet_CallbackState k w =
     ((if strings_HasPrefix k (JobKeyPrefix w)
       then (case jobs w (drop (length (JobKeyPrefix w)) k) of
               None \<Rightarrow> Inl (Err ''redis: nil'')
             | Some j \<Rightarrow> Inr (CallbackState j))
       else Inl (Err ''redis: nil'')),
      w\<lparr>trace := trace w @ [EvHGet k ''CallbackState'']\<rparr>)"
  by (simp add: Redis_HGet_CallbackState_def store_call_healthy split: option.split)

lemma requeued_Nil: "requeued p J [] i = False"
  by (simp add: requeued_def)

lemma requeued_Cons:
  "requeued p J (k # ks) i =
     (p @ i = k \<and> (\<exists>jb. J i = Some jb \<and> CallbackState jb = StateInProgress)
      \<or> requeued p J ks i)"
  by (auto simp: requeued_def)

lemma requeued_append:
  "requeued p J (ks @ ks') i = (requeued p J ks i \<or> requeued p J ks' i)"
  by (auto simp: requeued_def)

text \<open>A record requeued by the first keys is \<open>StatePending\<close> for the keys that follow.\<close>

lemma requeued_afterScan:
  "requeued p (afterScan p J ks) ks' i = (requeued p J ks' i \<and> \<not> requeued p J ks i)"
  by (auto simp: requeued_def afterScan_def)

lemma afterScan_afterScan: "afterScan p (afterScan p J ks) ks' = afterScan p J (ks @ ks')"
  by (rule ext) (auto simp: afterScan_def requeued_def)

lemma afterScan_keyed:
  "\<forall>i jb. J i = Some jb \<longrightarrow> ID jb = i \<Longrightarrow>
   \<forall>i jb. afterScan p J ks i = Some jb \<longrightarrow> ID jb = i"
  by (auto simp: afterScan_def split: if_splits)

text \<open>One key on a healthy store: the world after it, as the loop body leaves it.\<close>

lemma requeueKeys_step:
  assumes "faults w = []" and "\<forall>i jb. jobs w i = Some jb \<longrightarrow> ID jb = i"
  shows "\<exists>rc1 w1. requeueKeys (k # keys) rc w = requeueKeys keys rc1 w1 \<and>
           faults w1 = [] \<and> scan w1 = scan w \<and> JobKeyPrefix w1 = JobKeyPrefix w \<and>
           jobs w1 = afterScan (JobKeyPrefix w) (jobs w) [k] \<and>
           (\<forall>i. count_list (callbackQueue w1) i =
                 count_list (callbackQueue w) i
                 + (if requeued (JobKeyPrefix w) (jobs w) [k] i then 1 else 0))"
proof (cases "strings_HasPrefix k (JobKeyPrefix w) \<and>
              (\<exists>jb. jobs w (drop (length (JobKeyPrefix w)) k) = Some jb \<and>
                    CallbackState jb = StateInProgress)")
  case True
  then obtain jb where jb: "strings_HasPrefix k (JobKeyPrefix w)"
      "jobs w (drop (length (JobKeyPrefix w)) k) = Some jb"
      "CallbackState jb = StateInProgress"
    by blast
  let ?i0 = "drop (length (JobKeyPrefix w)) k"
  have k: "k = JobKeyPrefix w @ ?i0"
    using jb(1) by (metis append_take_drop_id strings_HasPrefix_def)
  have id: "ID jb = ?i0" using assms(2) jb(2) by blast
  let ?w3 = "w\<lparr>jobs := (jobs w)(?i0 \<mapsto> jb\<lparr>CallbackState := StatePending\<rparr>),
               callbackQueue := callbackQueue w @ [?i0],
               trace := trace w @ [EvHGet k ''CallbackState'', EvGetJob ?i0,
                                   EvQueuePendingCallback jb]\<rparr>"
  have step: "requeueKeys (k # keys) rc w = requeueKeys keys (rc + 1) ?w3"
    using assms(1) jb id
    by (simp add: HGet_healthy GetJob_healthy QueuePendingCallback_healthy
                  strings_TrimPrefix_def)
  have eqk: "(JobKeyPrefix w @ i = k) = (i = ?i0)" for i
    using k by (metis same_append_eq)
  have r: "requeued (JobKeyPrefix w) (jobs w) [k] i = (i = ?i0)" for i
    using jb(2,3) by (auto simp: requeued_def eqk)
  have j3: "jobs ?w3 = afterScan (JobKeyPrefix w) (jobs w) [k]"
    using jb(2) by (auto simp: afterScan_def r)
  show ?thesis
    using assms(1) step j3 r
    by (intro exI [of _ "rc + 1"] exI [of _ ?w3]) auto
next
  case False
  have r: "requeued (JobKeyPrefix w) (jobs w) [k] i = False" for i
    using False by (auto simp: requeued_def strings_HasPrefix_def)
  have a: "afterScan (JobKeyPrefix w) (jobs w) [k] = jobs w"
    by (rule ext) (simp add: afterScan_def r)
  have "\<exists>t. requeueKeys (k # keys) rc w = requeueKeys keys rc (w\<lparr>trace := t\<rparr>)"
    using assms(1) False
    by (auto simp: HGet_healthy Log_Print_def emit_def split: option.splits)
  then obtain t where "requeueKeys (k # keys) rc w = requeueKeys keys rc (w\<lparr>trace := t\<rparr>)" ..
  then show ?thesis
    using assms(1) a r
    by (intro exI [of _ rc] exI [of _ "w\<lparr>trace := t\<rparr>"]) auto
qed

text \<open>One page of keys on a healthy store.\<close>

lemma requeueKeys_healthy:
  assumes "faults w = []" and "\<forall>i jb. jobs w i = Some jb \<longrightarrow> ID jb = i"
  shows "\<exists>rc' w'. requeueKeys keys rc w = (rc', w') \<and>
           faults w' = [] \<and> scan w' = scan w \<and> JobKeyPrefix w' = JobKeyPrefix w \<and>
           jobs w' = afterScan (JobKeyPrefix w) (jobs w) keys \<and>
           (\<forall>i. count_list (callbackQueue w') i =
                 count_list (callbackQueue w) i
                 + (if requeued (JobKeyPrefix w) (jobs w) keys i then 1 else 0))"
  using assms
proof (induction keys arbitrary: rc w)
  case Nil
  have "afterScan (JobKeyPrefix w) (jobs w) [] = jobs w"
    by (rule ext) (simp add: afterScan_def requeued_Nil)
  with Nil show ?case by (simp add: requeued_Nil)
next
  case (Cons k keys)
  from requeueKeys_step [OF Cons.prems, of k keys rc]
  obtain rc1 w1 where s: "requeueKeys (k # keys) rc w = requeueKeys keys rc1 w1"
      "faults w1 = []" "scan w1 = scan w" "JobKeyPrefix w1 = JobKeyPrefix w"
      "jobs w1 = afterScan (JobKeyPrefix w) (jobs w) [k]"
      "\<forall>i. count_list (callbackQueue w1) i =
            count_list (callbackQueue w) i
            + (if requeued (JobKeyPrefix w) (jobs w) [k] i then 1 else 0)"
    by blast
  have keyed1: "\<forall>i jb. jobs w1 i = Some jb \<longrightarrow> ID jb = i"
    unfolding s(5) using Cons.prems(2) by (rule afterScan_keyed)
  from Cons.IH [OF s(2) keyed1, of rc1]
  obtain rc' w' where t: "requeueKeys keys rc1 w1 = (rc', w')"
      "faults w' = []" "scan w' = scan w1" "JobKeyPrefix w' = JobKeyPrefix w1"
      "jobs w' = afterScan (JobKeyPrefix w1) (jobs w1) keys"
      "\<forall>i. count_list (callbackQueue w') i =
            count_list (callbackQueue w1) i
            + (if requeued (JobKeyPrefix w1) (jobs w1) keys i then 1 else 0)"
    by blast
  have j: "jobs w' = afterScan (JobKeyPrefix w) (jobs w) (k # keys)"
    using t(5) s(4,5) afterScan_afterScan [of "JobKeyPrefix w" "jobs w" "[k]" keys] by simp
  have c: "count_list (callbackQueue w') i =
           count_list (callbackQueue w) i
           + (if requeued (JobKeyPrefix w) (jobs w) (k # keys) i then 1 else 0)" for i
    using t(6) s(4,5,6) requeued_afterScan [of "JobKeyPrefix w" "jobs w" "[k]" keys i]
      requeued_append [of "JobKeyPrefix w" "jobs w" "[k]" keys i]
    by auto
  show ?case
    using s(1,3,4) t(1,2,3,4) j c by simp
qed

text \<open>The whole scan on a healthy store whose key enumeration comes to an end.\<close>

lemma scanLoop_healthy:
  assumes "faults w = []" and "\<forall>i jb. jobs w i = Some jb \<longrightarrow> ID jb = i"
    and "scannedKeys fuel (scan w) c = Some ks"
  shows "\<exists>rc' w'. scanLoop fuel c rc w = Some (rc', w') \<and>
           jobs w' = afterScan (JobKeyPrefix w) (jobs w) ks \<and>
           (\<forall>i. count_list (callbackQueue w') i =
                 count_list (callbackQueue w) i
                 + (if requeued (JobKeyPrefix w) (jobs w) ks i then 1 else 0))"
  using assms
proof (induction fuel arbitrary: c rc w ks)
  case 0
  then show ?case by simp
next
  case (Suc fuel)
  let ?w1 = "emit (EvScan c (JobKeyPrefix w @ ''*'') 50) w"
  have w1: "faults ?w1 = []" "jobs ?w1 = jobs w" "JobKeyPrefix ?w1 = JobKeyPrefix w"
    "scan ?w1 = scan w" "callbackQueue ?w1 = callbackQueue w"
    using Suc.prems(1) by (simp_all add: emit_def)
  have keyed1: "\<forall>i jb. jobs ?w1 i = Some jb \<longrightarrow> ID jb = i"
    using Suc.prems(2) by (simp add: emit_def)
  show ?case
  proof (cases "scan w c")
    case (Inl err)
    have "afterScan (JobKeyPrefix w) (jobs w) [] = jobs w"
      by (rule ext) (simp add: afterScan_def requeued_Nil)
    with Inl Suc.prems(3) show ?thesis
      by (simp add: Redis_Scan_def Log_Print_def emit_def requeued_Nil)
  next
    case (Inr page)
    obtain keys c' where page: "page = (keys, c')" by (cases page)
    from requeueKeys_healthy [OF w1(1) keyed1, of keys rc]
    obtain rc2 w2 where q: "requeueKeys keys rc ?w1 = (rc2, w2)"
        "faults w2 = []" "scan w2 = scan w" "JobKeyPrefix w2 = JobKeyPrefix w"
        "jobs w2 = afterScan (JobKeyPrefix w) (jobs w) keys"
        "\<forall>i. count_list (callbackQueue w2) i =
              count_list (callbackQueue w) i
              + (if requeued (JobKeyPrefix w) (jobs w) keys i then 1 else 0)"
      using w1 by auto
    have unfold: "scanLoop (Suc fuel) c rc w =
        (if c' = 0 then Some (rc2, w2) else scanLoop fuel c' rc2 w2)"
      using Inr page q(1) by (simp add: Redis_Scan_def)
    show ?thesis
    proof (cases "c' = 0")
      case True
      then show ?thesis
        unfolding unfold using Suc.prems(3) Inr page q by simp
    next
      case False
      with Suc.prems(3) Inr page obtain ks' where
        ks': "scannedKeys fuel (scan w) c' = Some ks'" "ks = keys @ ks'"
        by auto
      have keyed2: "\<forall>i jb. jobs w2 i = Some jb \<longrightarrow> ID jb = i"
        unfolding q(5) using Suc.prems(2) by (rule afterScan_keyed)
      from Suc.IH [OF q(2) keyed2, of c' ks' rc2] ks'(1) q(3)
      obtain rc' w' where r: "scanLoop fuel c' rc2 w2 = Some (rc', w')"
        "jobs w' = afterScan (JobKeyPrefix w2) (jobs w2) ks'"
        "\<forall>i. count_list (callbackQueue w') i =
              count_list (callbackQueue w2) i
              + (if requeued (JobKeyPrefix w2) (jobs w2) ks' i then 1 else 0)"
        by auto
      have j: "jobs w' = afterScan (JobKeyPrefix w) (jobs w) ks"
        using r(2) q(4,5) ks'(2) by (simp add: afterScan_afterScan)
      have cnt: "count_list (callbackQueue w') i =
                 count_list (callbackQueue w) i
                 + (if requeued (JobKeyPrefix w) (jobs w) ks i then 1 else 0)" for i
        using r(3) q(4,5,6) ks'(2)
          requeued_afterScan [of "JobKeyPrefix w" "jobs w" keys ks' i]
          requeued_append [of "JobKeyPrefix w" "jobs w" keys ks' i]
        by auto
      show ?thesis
        unfolding unfold using False r(1) j cnt by simp
    qed
  qed
qed


subsection \<open>What the scan writes\<close>

lemma GetJob_trace: "GetJob i w = (r, w') \<Longrightarrow> trace w' = trace w @ [EvGetJob i]"
  by (auto simp: GetJob_def split: prod.splits option.splits dest: store_call_trace)

lemma HGet_trace:
  "Redis_HGet_CallbackState k w = (r, w') \<Longrightarrow>
   trace w' = trace w @ [EvHGet k ''CallbackState'']"
  by (auto simp: Redis_HGet_CallbackState_def split: prod.splits option.splits if_splits
           dest: store_call_trace)

lemma PopCallback_trace: "PopCallback w = (r, w') \<Longrightarrow> trace w' = trace w @ [EvPopCallback]"
  by (auto simp: PopCallback_def split: prod.splits option.splits list.splits
           dest: store_call_trace)

text \<open>The recovery scan calls \<open>SaveJob\<close> nowhere, whatever the store does.\<close>

lemma requeueKeys_saves:
  "requeueKeys keys rc w = (rc', w') \<Longrightarrow> EvSaveJob jb \<in> set (trace w') \<Longrightarrow>
   EvSaveJob jb \<in> set (trace w)"
proof (induction keys arbitrary: rc w)
  case Nil
  then show ?case by simp
next
  case (Cons k keys)
  obtain r w1 where h: "Redis_HGet_CallbackState k w = (r, w1)"
    by (cases "Redis_HGet_CallbackState k w")
  note t1 = HGet_trace [OF h]
  show ?case
  proof (cases r)
    case (Inl err)
    with Cons.prems h have "requeueKeys keys rc (Log_Print (LogErr err) w1) = (rc', w')"
      by simp
    from Cons.IH [OF this Cons.prems(2)] t1 show ?thesis
      by (simp add: Log_Print_def emit_def)
  next
    case (Inr st)
    show ?thesis
    proof (cases "st = StateInProgress")
      case False
      with Cons.prems h Inr have "requeueKeys keys rc w1 = (rc', w')" by simp
      from Cons.IH [OF this Cons.prems(2)] t1 show ?thesis by simp
    next
      case True
      obtain g w2 where g: "GetJob (strings_TrimPrefix k (JobKeyPrefix w1)) w1 = (g, w2)"
        by (cases "GetJob (strings_TrimPrefix k (JobKeyPrefix w1)) w1")
      note t2 = GetJob_trace [OF g]
      show ?thesis
      proof (cases g)
        case (Inl err)
        with Cons.prems h Inr True g
        have "requeueKeys keys rc (Log_Print (LogCouldNotGetJob err) w2) = (rc', w')"
          by simp
        from Cons.IH [OF this Cons.prems(2)] t1 t2 show ?thesis
          by (simp add: Log_Print_def emit_def)
      next
        case job: (Inr job)
        obtain q job' w3 where q: "QueuePendingCallback job w2 = (q, job', w3)"
          by (cases "QueuePendingCallback job w2")
        note t3 = QueuePendingCallback_trace [OF q, THEN conjunct2]
        show ?thesis
        proof (cases q)
          case None
          with Cons.prems h Inr True g job q
          have "requeueKeys keys (rc + 1) w3 = (rc', w')" by simp
          from Cons.IH [OF this Cons.prems(2)] t1 t2 t3 show ?thesis by simp
        next
          case (Some err)
          with Cons.prems h Inr True g job q
          have "requeueKeys keys rc (Log_Print (LogCouldNotQueue err) w3) = (rc', w')"
            by simp
          from Cons.IH [OF this Cons.prems(2)] t1 t2 t3 show ?thesis
            by (simp add: Log_Print_def emit_def)
        qed
      qed
    qed
  qed
qed

lemma scanLoop_saves:
  "scanLoop fuel c rc w = Some (rc', w') \<Longrightarrow> EvSaveJob jb \<in> set (trace w') \<Longrightarrow>
   EvSaveJob jb \<in> set (trace w)"
proof (induction fuel arbitrary: c rc w)
  case 0
  then show ?case by simp
next
  case (Suc fuel)
  show ?case
  proof (cases "scan w c")
    case (Inl err)
    with Suc.prems show ?thesis
      by (auto simp: Redis_Scan_def Log_Print_def emit_def)
  next
    case (Inr page)
    obtain keys c' where page: "page = (keys, c')" by (cases page)
    let ?w1 = "emit (EvScan c (JobKeyPrefix w @ ''*'') 50) w"
    obtain rc2 w2 where q: "requeueKeys keys rc ?w1 = (rc2, w2)"
      by (cases "requeueKeys keys rc ?w1")
    have w2: "EvSaveJob jb \<in> set (trace w2) \<Longrightarrow> EvSaveJob jb \<in> set (trace w)"
      using requeueKeys_saves [OF q, of jb] by (simp add: emit_def)
    have unfold: "scanLoop (Suc fuel) c rc w =
        (if c' = 0 then Some (rc2, w2) else scanLoop fuel c' rc2 w2)"
      using Inr page q by (simp add: Redis_Scan_def)
    show ?thesis
    proof (cases "c' = 0")
      case True
      with Suc.prems unfold w2 show ?thesis by simp
    next
      case False
      with Suc.prems(1) unfold have "scanLoop fuel c' rc2 w2 = Some (rc', w')" by simp
      from Suc.IH [OF this Suc.prems(2)] w2 show ?thesis by simp
    qed
  qed
qed

lemma collectRogueCallbacks_saves:
  "collectRogueCallbacks fuel n w = Some w' \<Longrightarrow> EvSaveJob jb \<in> set (trace w') \<Longrightarrow>
   EvSaveJob jb \<in> set (trace w)"
  by (auto simp: collectRogueCallbacks_def Log_Print_def emit_def
           split: option.splits prod.splits if_splits dest: scanLoop_saves)

subsection \<open>The scan and the queue\<close>

lemmas scan_simps = collectRogueCallbacks_def Redis_Scan_def HGet_healthy GetJob_healthy
  QueuePendingCallback_healthy strings_TrimPrefix_def Log_Print_def emit_def


text \<open>
  C3 as stated fails where it says that the scan modifies no field of the record: the
  scan requeues an orphaned record through \<open>QueuePendingCallback\<close>, and the store's
  requeue puts the record back to \<open>StatePending\<close>.
\<close>

theorem recovery_scan_resets_state:
  "collectRogueCallbacks 1 sample_notifier
     (sample_world\<lparr>jobs := [''j1'' \<mapsto> sample_job\<lparr>CallbackState := StateInProgress\<rparr>]\<rparr>)
   = Some (sample_world
             \<lparr>jobs := [''j1'' \<mapsto> sample_job\<lparr>CallbackState := StatePending\<rparr>],
              callbackQueue := [''j1''],
              trace := [EvScan 0 ''jobs:*'' 50, EvHGet ''jobs:j1'' ''CallbackState'',
                        EvGetJob ''j1'',
                        EvQueuePendingCallback (sample_job\<lparr>CallbackState := StateInProgress\<rparr>),
                        EvLog (LogQueuedRogue 1)]\<rparr>) \<and>
   scannedKeys 1 (scan sample_world) 0 = Some [''jobs:j1''] \<and>
   sample_job\<lparr>CallbackState := StatePending\<rparr>
     \<noteq> sample_job\<lparr>CallbackState := StateInProgress\<rparr>"
  by (simp add: sample_defs scan_simps)

text \<open>
  C3, amended. On a healthy store whose records are kept under their own IDs, and with a
  key enumeration that comes to an end having listed the keys \<open>ks\<close>, the recovery scan
  returns. A record that is \<open>StateInProgress\<close> and whose key is listed, be it several
  times, is pushed on the pending-callback queue exactly once: it occurs there once more
  than before the scan, so exactly once if it was not queued already. The scan calls
  \<open>SaveJob\<close> nowhere; the requeue it asks of the store leaves that record
  \<open>StatePending\<close> and changes no other field. Every other record, one in another state
  or one whose key is not listed, is neither pushed nor changed.
\<close>

theorem collectRogueCallbacks_requeues:
  assumes "faults w = []"
    and "\<forall>i jb. jobs w i = Some jb \<longrightarrow> ID jb = i"
    and "scannedKeys fuel (scan w) 0 = Some ks"
  shows "\<exists>w'. collectRogueCallbacks fuel n w = Some w' \<and>
           (\<forall>i. case jobs w i of
                  None \<Rightarrow>
                    jobs w' i = None \<and>
                    count_list (callbackQueue w') i = count_list (callbackQueue w) i
                | Some jb \<Rightarrow>
                    if CallbackState jb = StateInProgress \<and> JobKeyPrefix w @ i \<in> set ks
                    then jobs w' i = Some (jb\<lparr>CallbackState := StatePending\<rparr>) \<and>
                         count_list (callbackQueue w') i
                           = count_list (callbackQueue w) i + 1
                    else jobs w' i = Some jb \<and>
                         count_list (callbackQueue w') i = count_list (callbackQueue w) i) \<and>
           (\<forall>jb. EvSaveJob jb \<in> set (trace w') \<longrightarrow> EvSaveJob jb \<in> set (trace w))"
proof -
  from scanLoop_healthy [OF assms, of 0]
  obtain rc' w' where s: "scanLoop fuel 0 0 w = Some (rc', w')"
    "jobs w' = afterScan (JobKeyPrefix w) (jobs w) ks"
    "\<forall>i. count_list (callbackQueue w') i =
          count_list (callbackQueue w) i
          + (if requeued (JobKeyPrefix w) (jobs w) ks i then 1 else 0)"
    by blast
  define w2 where "w2 = (if 0 < rc' then Log_Print (LogQueuedRogue rc') w' else w')"
  have c: "collectRogueCallbacks fuel n w = Some w2"
    using s(1) by (simp add: collectRogueCallbacks_def w2_def)
  have f: "jobs w2 = jobs w'" "callbackQueue w2 = callbackQueue w'"
    by (simp_all add: w2_def Log_Print_def emit_def)
  have "case jobs w i of
          None \<Rightarrow>
            jobs w2 i = None \<and>
            count_list (callbackQueue w2) i = count_list (callbackQueue w) i
        | Some jb \<Rightarrow>
            if CallbackState jb = StateInProgress \<and> JobKeyPrefix w @ i \<in> set ks
            then jobs w2 i = Some (jb\<lparr>CallbackState := StatePending\<rparr>) \<and>
                 count_list (callbackQueue w2) i = count_list (callbackQueue w) i + 1
            else jobs w2 i = Some jb \<and>
                 count_list (callbackQueue w2) i = count_list (callbackQueue w) i" for i
    using s(2) s(3) [rule_format, of i] f
    by (auto simp: afterScan_def requeued_def split: option.splits)
  moreover have "EvSaveJob jb \<in> set (trace w2) \<longrightarrow> EvSaveJob jb \<in> set (trace w)" for jb
    using collectRogueCallbacks_saves [OF c] by blast
  ultimately show ?thesis using c by blast
qed

text \<open>One orphaned record, an empty queue, its key listed once.\<close>

theorem collectRogueCallbacks_requeues_witness:
  "\<exists>w'. collectRogueCallbacks 1 sample_notifier
           (sample_world\<lparr>jobs := [''j1'' \<mapsto> sample_job\<lparr>CallbackState := StateInProgress\<rparr>]\<rparr>)
         = Some w' \<and>
        jobs w' ''j1'' = Some sample_job \<and>
        count_list (callbackQueue w') ''j1'' = 1"
proof -
  let ?w = "sample_world\<lparr>jobs := [''j1'' \<mapsto> sample_job\<lparr>CallbackState := StateInProgress\<rparr>]\<rparr>"
  have h: "faults ?w = []" "\<forall>i jb. jobs ?w i = Some jb \<longrightarrow> ID jb = i"
    "scannedKeys 1 (scan ?w) 0 = Some [''jobs:j1'']"
    by (simp_all add: sample_defs)
  from collectRogueCallbacks_requeues [OF h, of sample_notifier]
  obtain w' where w': "collectRogueCallbacks 1 sample_notifier ?w = Some w'"
    "\<forall>i. case jobs ?w i of
            None \<Rightarrow>
              jobs w' i = None \<and>
              count_list (callbackQueue w') i = count_list (callbackQueue ?w) i
          | Some jb \<Rightarrow>
              if CallbackState jb = StateInProgress \<and> JobKeyPrefix ?w @ i \<in> set [''jobs:j1'']
              then jobs w' i = Some (jb\<lparr>CallbackState := StatePending\<rparr>) \<and>
                   count_list (callbackQueue w') i = count_list (callbackQueue ?w) i + 1
              else jobs w' i = Some jb \<and>
                   count_list (callbackQueue w') i = count_list (callbackQueue ?w) i"
    by blast
  from w'(2) [rule_format, of "''j1''"] w'(1) show ?thesis
    by (simp add: sample_defs)
qed


subsection \<open>The first step of the dispatcher\<close>

lemma PopCallback_healthy_job:
  "faults w = [] \<Longrightarrow> callbackQueue w = i # q \<Longrightarrow> jobs w i = Some jb \<Longrightarrow>
   PopCallback w = (Inr jb, w\<lparr>callbackQueue := q, trace := trace w @ [EvPopCallback]\<rparr>)"
  by (simp add: PopCallback_def store_call_healthy)

lemma PopCallback_healthy_missing:
  "faults w = [] \<Longrightarrow> callbackQueue w = i # q \<Longrightarrow> jobs w i = None \<Longrightarrow>
   PopCallback w =
     (Inl (Err ''Not Found''), w\<lparr>callbackQueue := q, trace := trace w @ [EvPopCallback]\<rparr>)"
  by (simp add: PopCallback_def store_call_healthy)

lemma PopCallback_healthy_empty:
  "faults w = [] \<Longrightarrow> callbackQueue w = [] \<Longrightarrow>
   PopCallback w = (Inl ErrEmptyQueue, w\<lparr>trace := trace w @ [EvPopCallback]\<rparr>)"
  by (simp add: PopCallback_def store_call_healthy)

lemma Notify_trace_first:
  "Notify lib n j w = (e, j', w') \<Longrightarrow>
   \<exists>evs. trace w' =
            trace w @ EvSaveJob (j\<lparr>CallbackCount := CallbackCount j + 1,
                                    CallbackState := StateInProgress, CallbackMeta := []\<rparr>) # evs"
  using Notify_trace_shape [of lib n j w] by auto

lemma dispatch_trace: "\<exists>evs. trace (dispatch lib n ticks w) = trace w @ evs"
proof (induction ticks arbitrary: w)
  case 0
  then show ?case by simp
next
  case (Suc ticks)
  obtain r w1 where p: "PopCallback w = (r, w1)" by (cases "PopCallback w")
  note t1 = PopCallback_trace [OF p]
  show ?case
  proof (cases r)
    case (Inl err)
    let ?w2 = "emit EvSleep (case err of ErrEmptyQueue \<Rightarrow> w1 | ErrRetryLater \<Rightarrow> w1
                              | Err m \<Rightarrow> Log_Print (LogErr err) w1)"
    have d: "dispatch lib n (Suc ticks) w = dispatch lib n ticks ?w2"
      using p Inl by simp
    have "\<exists>evs. trace ?w2 = trace w @ evs"
      using t1 by (cases err) (simp_all add: emit_def Log_Print_def)
    with Suc.IH [of ?w2] d show ?thesis by auto
  next
    case (Inr job)
    obtain e j' w2 where nt: "Notify lib n job w1 = (e, j', w2)"
      by (cases "Notify lib n job w1")
    from Notify_trace_first [OF nt] t1
    have t2: "\<exists>evs. trace w2 = trace w @ evs" by auto
    show ?thesis
    proof (cases e)
      case None
      with p Inr nt have "dispatch lib n (Suc ticks) w = dispatch lib n ticks w2" by simp
      with Suc.IH [of w2] t2 show ?thesis by auto
    next
      case (Some err)
      with p Inr nt
      have "dispatch lib n (Suc ticks) w =
              dispatch lib n ticks (Log_Print (LogNotifyError err) w2)"
        by simp
      with Suc.IH [of "Log_Print (LogNotifyError err) w2"] t2 show ?thesis
        by (auto simp: Log_Print_def emit_def)
    qed
  qed
qed

text \<open>Whatever the store does, a dispatcher that is not stopped at once pops the queue.\<close>

lemma dispatch_pops:
  "\<exists>evs. trace (dispatch lib n (Suc ticks) w) = trace w @ EvPopCallback # evs"
proof -
  obtain r w1 where p: "PopCallback w = (r, w1)" by (cases "PopCallback w")
  note t1 = PopCallback_trace [OF p]
  show ?thesis
  proof (cases r)
    case (Inl err)
    let ?w2 = "emit EvSleep (case err of ErrEmptyQueue \<Rightarrow> w1 | ErrRetryLater \<Rightarrow> w1
                              | Err m \<Rightarrow> Log_Print (LogErr err) w1)"
    have d: "dispatch lib n (Suc ticks) w = dispatch lib n ticks ?w2"
      using p Inl by simp
    have "\<exists>evs. trace ?w2 = trace w @ EvPopCallback # evs"
      using t1 by (cases err) (simp_all add: emit_def Log_Print_def)
    with dispatch_trace [of lib n ticks ?w2] d show ?thesis by auto
  next
    case (Inr job)
    obtain e j' w2 where nt: "Notify lib n job w1 = (e, j', w2)"
      by (cases "Notify lib n job w1")
    from Notify_trace_first [OF nt] t1
    have t2: "\<exists>evs. trace w2 = trace w @ EvPopCallback # evs" by auto
    show ?thesis
    proof (cases e)
      case None
      with p Inr nt have "dispatch lib n (Suc ticks) w = dispatch lib n ticks w2" by simp
      with dispatch_trace [of lib n ticks w2] t2 show ?thesis by auto
    next
      case (Some err)
      with p Inr nt
      have "dispatch lib n (Suc ticks) w =
              dispatch lib n ticks (Log_Print (LogNotifyError err) w2)"
        by simp
      with dispatch_trace [of lib n ticks "Log_Print (LogNotifyError err) w2"] t2
      show ?thesis by (auto simp: Log_Print_def emit_def)
    qed
  qed
qed

text \<open>
  On a healthy store the popped job is handed to \<open>Notify\<close>, whose first act is the save of
  the attempt; on an empty queue the dispatcher sleeps.
\<close>

lemma dispatch_delivers:
  assumes "faults w = []" and "callbackQueue w = i # q" and "jobs w i = Some jb"
  shows "\<exists>evs. trace (dispatch lib n (Suc ticks) w) =
           trace w @ EvPopCallback #
             EvSaveJob (jb\<lparr>CallbackCount := CallbackCount jb + 1,
                           CallbackState := StateInProgress, CallbackMeta := []\<rparr>) # evs"
proof -
  let ?w1 = "w\<lparr>callbackQueue := q, trace := trace w @ [EvPopCallback]\<rparr>"
  note p = PopCallback_healthy_job [OF assms]
  obtain e j' w2 where nt: "Notify lib n jb ?w1 = (e, j', w2)"
    by (cases "Notify lib n jb ?w1")
  from Notify_trace_first [OF nt]
  have t2: "\<exists>evs. trace w2 =
              trace w @ EvPopCallback #
                EvSaveJob (jb\<lparr>CallbackCount := CallbackCount jb + 1,
                              CallbackState := StateInProgress, CallbackMeta := []\<rparr>) # evs"
    by auto
  show ?thesis
  proof (cases e)
    case None
    with p nt have "dispatch lib n (Suc ticks) w = dispatch lib n ticks w2" by simp
    with dispatch_trace [of lib n ticks w2] t2 show ?thesis by auto
  next
    case (Some err)
    with p nt
    have "dispatch lib n (Suc ticks) w =
            dispatch lib n ticks (Log_Print (LogNotifyError err) w2)"
      by simp
    with dispatch_trace [of lib n ticks "Log_Print (LogNotifyError err) w2"] t2
    show ?thesis by (auto simp: Log_Print_def emit_def)
  qed
qed

lemma dispatch_sleeps:
  assumes "faults w = []" and "callbackQueue w = []"
  shows "\<exists>evs. trace (dispatch lib n (Suc ticks) w) = trace w @ EvPopCallback # EvSleep # evs"
proof -
  let ?w2 = "emit EvSleep (w\<lparr>trace := trace w @ [EvPopCallback]\<rparr>)"
  have "dispatch lib n (Suc ticks) w = dispatch lib n ticks ?w2"
    by (simp add: PopCallback_healthy_empty [OF assms])
  with dispatch_trace [of lib n ticks ?w2] show ?thesis by (auto simp: emit_def)
qed

subsection \<open>A failing page\<close>

text \<open>
  C10. Let the scan have come to cursor \<open>c\<close> with \<open>rc\<close> jobs requeued and the world \<open>w\<close>,
  and let the store fail the page at \<open>c\<close>. Then the loop ends there: the error is logged,
  no further page is asked for, and the count, the records and the queue are as they were
  at that point, so the keys of the later pages are never looked at.
  \<open>collectRogueCallbacks\<close> returns (after the line on the jobs it did requeue, if any) and
  \<open>Start\<close> goes on to dispatch from that world. The dispatcher then works as after a scan
  that went well: unless it is stopped at once, the next call on the store is
  \<open>PopCallback\<close>; on a healthy store with a job at the head of the queue, the call after
  that is the save that opens the delivery of that job, and with an empty queue the
  dispatcher sleeps.
\<close>

theorem scan_error_abandons_scan:
  assumes "scanLoop fuel0 0 0 w0 = scanLoop (Suc fuel) c rc w"
    and "scan w c = Inl err"
  shows "\<exists>w1. scanLoop (Suc fuel) c rc w =
                 Some (rc, w\<lparr>trace := trace w @ [EvScan c (JobKeyPrefix w @ ''*'') 50,
                                                   EvLog (LogErr err)]\<rparr>) \<and>
              collectRogueCallbacks fuel0 n w0 = Some w1 \<and>
              trace w1 = trace w @ [EvScan c (JobKeyPrefix w @ ''*'') 50, EvLog (LogErr err)]
                           @ (if 0 < rc then [EvLog (LogQueuedRogue rc)] else []) \<and>
              jobs w1 = jobs w \<and> callbackQueue w1 = callbackQueue w \<and>
              Start lib n fuel0 ticks w0 = Some (dispatch lib n ticks w1) \<and>
              (\<exists>evs. map_option trace (Start lib n fuel0 (Suc ticks) w0) =
                        Some (trace w1 @ EvPopCallback # evs)) \<and>
              (faults w = [] \<longrightarrow>
                 (case callbackQueue w of
                    [] \<Rightarrow>
                      \<exists>evs. map_option trace (Start lib n fuel0 (Suc ticks) w0) =
                              Some (trace w1 @ EvPopCallback # EvSleep # evs)
                  | i # q \<Rightarrow>
                      (\<forall>jb. jobs w i = Some jb \<longrightarrow>
                         (\<exists>evs. map_option trace (Start lib n fuel0 (Suc ticks) w0) =
                            Some (trace w1 @ EvPopCallback #
                               EvSaveJob (jb\<lparr>CallbackCount := CallbackCount jb + 1,
                                             CallbackState := StateInProgress,
                                             CallbackMeta := []\<rparr>) # evs)))))"
proof -
  define w1 where
    "w1 = w\<lparr>trace := trace w @ [EvScan c (JobKeyPrefix w @ ''*'') 50, EvLog (LogErr err)]
                       @ (if 0 < rc then [EvLog (LogQueuedRogue rc)] else [])\<rparr>"
  have s: "scanLoop (Suc fuel) c rc w =
             Some (rc, w\<lparr>trace := trace w @ [EvScan c (JobKeyPrefix w @ ''*'') 50,
                                               EvLog (LogErr err)]\<rparr>)"
    using assms(2) by (simp add: Redis_Scan_def Log_Print_def emit_def)
  have c: "collectRogueCallbacks fuel0 n w0 = Some w1"
    unfolding collectRogueCallbacks_def assms(1) s w1_def
    by (simp add: Log_Print_def emit_def)
  have f: "jobs w1 = jobs w" "callbackQueue w1 = callbackQueue w" "faults w1 = faults w"
    "trace w1 = trace w @ [EvScan c (JobKeyPrefix w @ ''*'') 50, EvLog (LogErr err)]
                  @ (if 0 < rc then [EvLog (LogQueuedRogue rc)] else [])"
    by (simp_all add: w1_def)
  have st: "Start lib n fuel0 k w0 = Some (dispatch lib n k w1)" for k
    by (simp add: Start_def c)
  have pops: "\<exists>evs. map_option trace (Start lib n fuel0 (Suc ticks) w0) =
                 Some (trace w1 @ EvPopCallback # evs)"
    unfolding st using dispatch_pops [of lib n ticks w1] by simp
  have sleeps: "\<exists>evs. map_option trace (Start lib n fuel0 (Suc ticks) w0) =
                   Some (trace w1 @ EvPopCallback # EvSleep # evs)"
    if "faults w = []" "callbackQueue w = []"
    unfolding st using dispatch_sleeps [of w1 lib n ticks] that f by simp
  have delivers: "\<exists>evs. map_option trace (Start lib n fuel0 (Suc ticks) w0) =
                    Some (trace w1 @ EvPopCallback #
                       EvSaveJob (jb\<lparr>CallbackCount := CallbackCount jb + 1,
                                     CallbackState := StateInProgress,
                                     CallbackMeta := []\<rparr>) # evs)"
    if "faults w = []" "callbackQueue w = i # q" "jobs w i = Some jb" for i q jb
    unfolding st using dispatch_delivers [of w1 i q jb lib n ticks] that f by simp
  have last: "faults w = [] \<longrightarrow>
     (case callbackQueue w of
        [] \<Rightarrow>
          \<exists>evs. map_option trace (Start lib n fuel0 (Suc ticks) w0) =
                  Some (trace w1 @ EvPopCallback # EvSleep # evs)
      | i # q \<Rightarrow>
          (\<forall>jb. jobs w i = Some jb \<longrightarrow>
             (\<exists>evs. map_option trace (Start lib n fuel0 (Suc ticks) w0) =
                Some (trace w1 @ EvPopCallback #
                   EvSaveJob (jb\<lparr>CallbackCount := CallbackCount jb + 1,
                                 CallbackState := StateInProgress,
                                 CallbackMeta := []\<rparr>) # evs))))"
  proof (cases "callbackQueue w")
    case Nil
    with sleeps show ?thesis by simp
  next
    case (Cons i q)
    with delivers [of i q] show ?thesis by simp
  qed
  from s c f(4) f(1) f(2) st [of ticks] pops last show ?thesis by blast
qed

text \<open>
  Two orphaned records, the second page failing: the first record is requeued, the second
  stays \<open>StateInProgress\<close> and off the queue, and the dispatcher pops the first and opens
  its delivery.
\<close>

theorem scan_error_abandons_scan_witness:
  "\<exists>w1. collectRogueCallbacks 2 sample_notifier two_page_world = Some w1 \<and>
         callbackQueue w1 = [''j1''] \<and>
         map_option CallbackState (jobs w1 ''j1'') = Some StatePending \<and>
         map_option CallbackState (jobs w1 ''j2'') = Some StateInProgress \<and>
         trace w1 = [EvScan 0 ''jobs:*'' 50, EvHGet ''jobs:j1'' ''CallbackState'',
                     EvGetJob ''j1'',
                     EvQueuePendingCallback (sample_job\<lparr>CallbackState := StateInProgress\<rparr>),
                     EvScan 7 ''jobs:*'' 50, EvLog (LogErr (Err ''i/o timeout'')),
                     EvLog (LogQueuedRogue 1)] \<and>
         Start sample_lib sample_notifier 2 0 two_page_world = Some w1 \<and>
         (\<exists>evs. map_option trace (Start sample_lib sample_notifier 2 1 two_page_world) =
            Some (trace w1 @ EvPopCallback #
                    EvSaveJob (sample_job\<lparr>CallbackCount := 1,
                                 CallbackState := StateInProgress\<rparr>) # evs))"
proof -
  let ?w = "two_page_world
              \<lparr>jobs := (jobs two_page_world)(''j1'' \<mapsto> sample_job),
               callbackQueue := [''j1''],
               trace := [EvScan 0 ''jobs:*'' 50, EvHGet ''jobs:j1'' ''CallbackState'',
                         EvGetJob ''j1'',
                         EvQueuePendingCallback (sample_job\<lparr>CallbackState := StateInProgress\<rparr>)]\<rparr>"
  have two: "(2::nat) = Suc (Suc 0)" by simp
  have reach: "scanLoop 2 0 0 two_page_world = scanLoop (Suc 0) 7 1 ?w"
    unfolding two by (simp add: two_page_world_def sample_defs scan_simps)
  have err: "scan ?w 7 = Inl (Err ''i/o timeout'')"
    by (simp add: two_page_world_def sample_defs)
  from scan_error_abandons_scan [OF reach err, of sample_notifier sample_lib 0]
  show ?thesis
    by (auto simp: two_page_world_def sample_defs)
qed


section \<open>What the notifier saves\<close>

lemma Notify_saves:
  "Notify lib n j w = (e, j', w') \<Longrightarrow> EvSaveJob jb \<in> set (trace w') \<Longrightarrow>
   EvSaveJob jb \<in> set (trace w) \<or> CallbackState jb \<noteq> StatePending"
  using Notify_trace_shape [of lib n j w] by auto

lemma dispatch_saves:
  "EvSaveJob jb \<in> set (trace (dispatch lib n ticks w)) \<Longrightarrow>
   EvSaveJob jb \<in> set (trace w) \<or> CallbackState jb \<noteq> StatePending"
proof (induction ticks arbitrary: w)
  case 0
  then show ?case by simp
next
  case (Suc ticks)
  obtain r w1 where p: "PopCallback w = (r, w1)" by (cases "PopCallback w")
  note t1 = PopCallback_trace [OF p]
  show ?case
  proof (cases r)
    case (Inl err)
    let ?w2 = "emit EvSleep (case err of ErrEmptyQueue \<Rightarrow> w1 | ErrRetryLater \<Rightarrow> w1
                              | Err m \<Rightarrow> Log_Print (LogErr err) w1)"
    from Suc.prems p Inl have "EvSaveJob jb \<in> set (trace (dispatch lib n ticks ?w2))"
      by simp
    from Suc.IH [OF this] t1 show ?thesis
      by (cases err) (auto simp: emit_def Log_Print_def)
  next
    case (Inr job)
    obtain e j' w2 where nt: "Notify lib n job w1 = (e, j', w2)"
      by (cases "Notify lib n job w1")
    note s2 = Notify_saves [OF nt, of jb]
    show ?thesis
    proof (cases e)
      case None
      with Suc.prems p Inr nt have "EvSaveJob jb \<in> set (trace (dispatch lib n ticks w2))"
        by simp
      from Suc.IH [OF this] s2 t1 show ?thesis by auto
    next
      case (Some err)
      with Suc.prems p Inr nt
      have "EvSaveJob jb \<in> set (trace (dispatch lib n ticks (Log_Print (LogNotifyError err) w2)))"
        by simp
      from Suc.IH [OF this] s2 t1 show ?thesis by (auto simp: Log_Print_def emit_def)
    qed
  qed
qed

lemma Start_saves:
  "Start lib n fuel ticks w = Some w' \<Longrightarrow> EvSaveJob jb \<in> set (trace w') \<Longrightarrow>
   EvSaveJob jb \<in> set (trace w) \<or> CallbackState jb \<noteq> StatePending"
  by (auto simp: Start_def split: option.splits
           dest: collectRogueCallbacks_saves dispatch_saves)

text \<open>
  C9 as stated fails where it says that the persisted record keeps \<open>StateInProgress\<close>
  until the next attempt, and that \<open>StatePending\<close> is never written back: the notifier
  does call \<open>SaveJob\<close> nowhere on the retry path, but the requeue it asks of the store
  puts the record back to \<open>StatePending\<close>. After a first answer of 500 the record in the
  store is \<open>StatePending\<close>, with the raised count.
\<close>

theorem retry_stores_pending:
  "CallbackCount sample_job + 1 < maxCallbackRetries \<and>
   faults (sample_world\<lparr>responses := [Inr status500]\<rparr>) = [] \<and>
   map_option CallbackState
     (jobs (snd (snd (Notify sample_lib sample_notifier sample_job
                        (sample_world\<lparr>responses := [Inr status500]\<rparr>)))) ''j1'')
     = Some StatePending \<and>
   map_option CallbackCount
     (jobs (snd (snd (Notify sample_lib sample_notifier sample_job
                        (sample_world\<lparr>responses := [Inr status500]\<rparr>)))) ''j1'')
     = Some 1"
  by (simp add: sample_defs delivery_simps maxCallbackRetries_def)

text \<open>
  C9, amended. A failed delivery below the ceiling, against a healthy store: the calls of
  the attempt are the save of the job as \<open>StateInProgress\<close> with the raised count, the
  POST, and \<open>QueuePendingCallback\<close>, handed that \<open>StateInProgress\<close> job; the notifier calls
  \<open>SaveJob\<close> nowhere after the failure. The requeue it asks of the store pushes the job on
  the queue and leaves the record, and the job \<open>Notify\<close> returns, \<open>StatePending\<close> with the
  raised count and every other field as saved. And no call of \<open>Notify\<close>, and no run of
  \<open>Start\<close> (the scan and the dispatch of any number of jobs), whatever the arguments and
  the store's faults, passes to \<open>SaveJob\<close> a record whose \<open>CallbackState\<close> is
  \<open>StatePending\<close>.
\<close>

theorem Notify_retry_only_requeues:
  assumes "faults w = []"
    and "DownloadState j = StateSuccess \<or> DownloadState j = StateFailed"
    and "responses w = [] \<or> (\<exists>err rs. responses w = Inl err # rs) \<or>
         (\<exists>res rs. responses w = Inr res # rs \<and>
            (StatusCode res < 200 \<or> 300 \<le> StatusCode res))"
    and "CallbackCount j + 1 < 2"
  shows "(\<exists>j1 c w'. Notify lib n j w = (None, j1\<lparr>CallbackState := StatePending\<rparr>, w') \<and>
            getCallbackInfo lib n j = Inr c \<and>
            j1 = j\<lparr>CallbackCount := CallbackCount j + 1, CallbackState := StateInProgress,
                    CallbackMeta := []\<rparr> \<and>
            trace w' = trace w @ [EvSaveJob j1,
                                  EvPost (CallbackURL j) ''application/json'' c,
                                  EvQueuePendingCallback j1] \<and>
            jobs w' = (jobs w)(ID j \<mapsto> j1\<lparr>CallbackState := StatePending\<rparr>) \<and>
            callbackQueue w' = callbackQueue w @ [ID j]) \<and>
         (\<forall>lib' n' j' w' jb.
            EvSaveJob jb \<in> set (trace (snd (snd (Notify lib' n' j' w')))) \<longrightarrow>
            EvSaveJob jb \<in> set (trace w') \<or> CallbackState jb \<noteq> StatePending) \<and>
         (\<forall>lib' n' fuel ticks w0 w1 jb.
            Start lib' n' fuel ticks w0 = Some w1 \<longrightarrow>
            EvSaveJob jb \<in> set (trace w1) \<longrightarrow>
            EvSaveJob jb \<in> set (trace w0) \<or> CallbackState jb \<noteq> StatePending)"
proof (intro conjI)
  show "\<exists>j1 c w'. Notify lib n j w = (None, j1\<lparr>CallbackState := StatePending\<rparr>, w') \<and>
            getCallbackInfo lib n j = Inr c \<and>
            j1 = j\<lparr>CallbackCount := CallbackCount j + 1, CallbackState := StateInProgress,
                    CallbackMeta := []\<rparr> \<and>
            trace w' = trace w @ [EvSaveJob j1,
                                  EvPost (CallbackURL j) ''application/json'' c,
                                  EvQueuePendingCallback j1] \<and>
            jobs w' = (jobs w)(ID j \<mapsto> j1\<lparr>CallbackState := StatePending\<rparr>) \<and>
            callbackQueue w' = callbackQueue w @ [ID j]"
    using assms by (auto simp: delivery_simps)
next
  show "\<forall>lib' n' j' w' jb.
            EvSaveJob jb \<in> set (trace (snd (snd (Notify lib' n' j' w')))) \<longrightarrow>
            EvSaveJob jb \<in> set (trace w') \<or> CallbackState jb \<noteq> StatePending"
  proof (intro allI impI)
    fix lib' n' j' w' jb
    assume a: "EvSaveJob jb \<in> set (trace (snd (snd (Notify lib' n' j' w'))))"
    from Notify_trace_shape [of lib' n' j' w'] a
    show "EvSaveJob jb \<in> set (trace w') \<or> CallbackState jb \<noteq> StatePending"
      by auto
  qed
next
  show "\<forall>lib' n' fuel ticks w0 w1 jb.
            Start lib' n' fuel ticks w0 = Some w1 \<longrightarrow>
            EvSaveJob jb \<in> set (trace w1) \<longrightarrow>
            EvSaveJob jb \<in> set (trace w0) \<or> CallbackState jb \<noteq> StatePending"
    using Start_saves by blast
qed

text \<open>The first 500: the trace of the attempt, and the record left in the store.\<close>

theorem Notify_retry_only_requeues_witness:
  "\<exists>j1 w'. Notify sample_lib sample_notifier sample_job
              (sample_world\<lparr>responses := [Inr status500]\<rparr>)
              = (None, j1\<lparr>CallbackState := StatePending\<rparr>, w') \<and>
     CallbackCount j1 = 1 \<and> CallbackState j1 = StateInProgress \<and>
     jobs w' ''j1'' = Some (j1\<lparr>CallbackState := StatePending\<rparr>) \<and>
     callbackQueue w' = [''j1''] \<and>
     trace w' = [EvSaveJob j1,
                 EvPost ''http://dst/cb'' ''application/json''
                   \<lparr>cb_Success = True, cb_Error = [], cb_Extra = [],
                    cb_DownloadURL = ''http://dl.example/files/j1''\<rparr>,
                 EvQueuePendingCallback j1]"
  using Notify_retry_only_requeues
    [where w = "sample_world\<lparr>responses := [Inr status500]\<rparr>" and j = sample_job
       and lib = sample_lib and n = sample_notifier]
  by (auto simp: sample_defs getCallbackInfo_def jobDownloadURL_def)


section \<open>Decoding\<close>

lemma requiredString_Some:
  "(requiredString p name = Some s) = (member p name = Some (JStr s) \<and> s \<noteq> [])"
  by (auto simp: requiredString_def split: option.splits json.splits)

lemma requiredString_None:
  "(requiredString p name = None) = (\<not> (\<exists>s. member p name = Some (JStr s) \<and> s \<noteq> []))"
  by (auto simp: requiredString_def split: option.splits json.splits)

text \<open>
  C8. Decoding fails exactly when the payload is not well-formed, or \<open>aggr_id\<close> is not
  a non-empty string (missing, of another type, or empty), or \<open>url\<close> or \<open>callback_url\<close>
  is not a non-empty string that is an absolute URI, or \<open>download_timeout\<close> is present
  and is anything but a positive integer (null, zero, negative, a fraction, a string). So
  it succeeds when the three required fields are good and \<open>download_timeout\<close> is absent
  or a positive integer, whatever \<open>extra\<close> is.
\<close>

theorem UnmarshalJSON_fails_iff:
  "(\<exists>e. UnmarshalJSON absoluteURI j p = Inl e) \<longleftrightarrow>
     (p = None \<or>
      \<not> (\<exists>s. member p ''aggr_id'' = Some (JStr s) \<and> s \<noteq> []) \<or>
      \<not> (\<exists>s. member p ''url'' = Some (JStr s) \<and> s \<noteq> [] \<and> absoluteURI s) \<or>
      \<not> (\<exists>s. member p ''callback_url'' = Some (JStr s) \<and> s \<noteq> [] \<and> absoluteURI s) \<or>
      (\<exists>v. member p ''download_timeout'' = Some v \<and>
           \<not> (\<exists>r. v = JNum r \<and> r \<in> \<int> \<and> 0 < r)))"
proof (cases "requiredString p ''aggr_id''")
  case None
  then show ?thesis
    using None [unfolded requiredString_None] by (simp add: UnmarshalJSON_def)
next
  case a: (Some a)
  show ?thesis
  proof (cases "requiredString p ''url''")
    case None
    then show ?thesis
      using a None [unfolded requiredString_None] by (auto simp: UnmarshalJSON_def)
  next
    case u: (Some u)
    show ?thesis
    proof (cases "requiredString p ''callback_url''")
      case None
      then show ?thesis
        using a u None [unfolded requiredString_None]
        by (auto simp: UnmarshalJSON_def)
    next
      case c: (Some c)
      note m = a [unfolded requiredString_Some] u [unfolded requiredString_Some]
        c [unfolded requiredString_Some]
      show ?thesis
        using a u c m
        by (auto simp: UnmarshalJSON_def Let_def split: option.splits json.splits)
    qed
  qed
qed

text \<open>
  The table of \<open>TestUnmarshalJSON\<close>, each payload as the JSON value it parses to (the
  first two do not parse), with \<open>isl\<close> for "an error is returned".
\<close>

lemma TestUnmarshalJSON:
  "isl (UnmarshalJSON sample_absoluteURI j None)"
  "isl (UnmarshalJSON sample_absoluteURI j (Some (JObj [(''foo'', JStr ''bar'')])))"
  "isl (UnmarshalJSON sample_absoluteURI j
     (test_payload (JStr ''foo'') (JStr ''foo'') (JStr ''http://foo.bar'')
        [(''extra'', JStr ''whatever'')]))"
  "isl (UnmarshalJSON sample_absoluteURI j
     (test_payload (JStr ''foo'') (JStr []) (JStr ''http://foo.bar'')
        [(''extra'', JStr ''whatever'')]))"
  "isl (UnmarshalJSON sample_absoluteURI j
     (test_payload (JStr ''foo'') (JStr ''http://foobar.com'') (JStr ''fijfij'')
        [(''extra'', JStr ''whatever'')]))"
  "isl (UnmarshalJSON sample_absoluteURI j
     (test_payload (JBool True) (JStr ''http://foobar.com'') (JStr ''http://foo.bar'')
        [(''extra'', JStr ''whatever'')]))"
  "isl (UnmarshalJSON sample_absoluteURI j
     (test_payload (JStr []) (JStr ''http://foobar.com'') (JStr ''http://foo.bar'')
        [(''extra'', JStr ''whatever'')]))"
  "\<not> isl (UnmarshalJSON sample_absoluteURI j
     (test_payload (JStr ''foo'') (JStr ''http://foobar.com'') (JStr ''http://foo.bar'') []))"
  "\<not> isl (UnmarshalJSON sample_absoluteURI j
     (test_payload (JStr ''foo'') (JStr ''http://foobar.com'') (JStr ''http://foo.bar'')
        [(''extra'', JStr ''whatever'')]))"
  "\<not> isl (UnmarshalJSON sample_absoluteURI j
     (test_payload (JStr ''foo'') (JStr ''http://foobar.com'') (JStr ''http://foo.bar'')
        [(''extra'', JStr [])]))"
  "\<not> isl (UnmarshalJSON sample_absoluteURI j
     (test_payload (JStr ''timeoutfoo'') (JStr ''http://foobar.com'') (JStr ''http://foo.bar'')
        [(''download_timeout'', JNum 12), (''extra'', JStr ''whatever'')]))"
  "\<not> isl (UnmarshalJSON sample_absoluteURI j
     (test_payload (JStr ''timeoutfoo'') (JStr ''http://foobar.com'') (JStr ''http://foo.bar'')
        [(''extra'', JStr ''whatever'')]))"
  "isl (UnmarshalJSON sample_absoluteURI j
     (test_payload (JStr ''timeoutfoo'') (JStr ''http://foobar.com'') (JStr ''http://foo.bar'')
        [(''download_timeout'', JNull), (''extra'', JStr ''whatever'')]))"
  "isl (UnmarshalJSON sample_absoluteURI j
     (test_payload (JStr ''timeoutfoo'') (JStr ''http://foobar.com'') (JStr ''http://foo.bar'')
        [(''download_timeout'', JNum 0), (''extra'', JStr ''whatever'')]))"
  "isl (UnmarshalJSON sample_absoluteURI j
     (test_payload (JStr ''timeoutfoo'') (JStr ''http://foobar.com'') (JStr ''http://foo.bar'')
        [(''download_timeout'', JNum (- 2)), (''extra'', JStr ''whatever'')]))"
  "isl (UnmarshalJSON sample_absoluteURI j
     (test_payload (JStr ''timeoutfoo'') (JStr ''http://foobar.com'') (JStr ''http://foo.bar'')
        [(''download_timeout'', JStr ''4''), (''extra'', JStr ''whatever'')]))"
  by (simp_all add: UnmarshalJSON_def requiredString_def test_payload_def
        sample_absoluteURI_def strings_HasPrefix_def)

text \<open>A null timeout is refused, a timeout of 12 is accepted.\<close>

theorem UnmarshalJSON_fails_iff_witness:
  "(\<exists>e. UnmarshalJSON sample_absoluteURI sample_job
          (test_payload (JStr ''foo'') (JStr ''http://foobar.com'') (JStr ''http://foo.bar'')
             [(''download_timeout'', JNull)]) = Inl e) \<and>
   (\<exists>j'. UnmarshalJSON sample_absoluteURI sample_job
          (test_payload (JStr ''foo'') (JStr ''http://foobar.com'') (JStr ''http://foo.bar'')
             [(''download_timeout'', JNum 12)]) = Inr j')"
proof -
  have a: "\<exists>e. UnmarshalJSON sample_absoluteURI sample_job
          (test_payload (JStr ''foo'') (JStr ''http://foobar.com'') (JStr ''http://foo.bar'')
             [(''download_timeout'', JNull)]) = Inl e"
    unfolding UnmarshalJSON_fails_iff by (simp add: test_payload_def)
  have "\<not> (\<exists>e. UnmarshalJSON sample_absoluteURI sample_job
          (test_payload (JStr ''foo'') (JStr ''http://foobar.com'') (JStr ''http://foo.bar'')
             [(''download_timeout'', JNum 12)]) = Inl e)"
    unfolding UnmarshalJSON_fails_iff
    by (simp add: test_payload_def sample_absoluteURI_def strings_HasPrefix_def)
  then have b: "\<exists>j'. UnmarshalJSON sample_absoluteURI sample_job
          (test_payload (JStr ''foo'') (JStr ''http://foobar.com'') (JStr ''http://foo.bar'')
             [(''download_timeout'', JNum 12)]) = Inr j'"
    by (metis sum.exhaust)
  from a b show ?thesis by blast
qed


end
